theory Spec2Isabelle
  imports Main "HOL-Library.Sublist"
begin

section \<open>Python values, dictionaries and strings\<close>

text \<open>
  A launch entry is a Python \<open>dict\<close> loaded from JSON. The fields the program reads
  (\<open>name\<close>, \<open>cmd\<close>, \<open>image-path\<close>) are strings or \<open>null\<close>; a key may also be
  absent. A dictionary is modelled as its item list, looked up with \<open>map_of\<close>.
  Strings are lists of code points below 256.
\<close>

datatype pyval = PyNone | PyStr string

type_synonym app = "(string \<times> pyval) list"

datatype error = IndexError | ConfigError | LibraryError | LoadError | FolderError
  | SaveError | SubprocessError

text \<open>\<open>d.get(k)\<close>: the value, or \<open>None\<close> when the key is absent.\<close>

definition dict_get :: "app \<Rightarrow> string \<Rightarrow> pyval" where
  "dict_get d k = (case map_of d k of None \<Rightarrow> PyNone | Some v \<Rightarrow> v)"

text \<open>\<open>d.get(k, default)\<close>: the default only replaces an absent key, not a \<open>null\<close>.\<close>

definition dict_get_default :: "app \<Rightarrow> string \<Rightarrow> pyval \<Rightarrow> pyval" where
  "dict_get_default d k dflt = (case map_of d k of None \<Rightarrow> dflt | Some v \<Rightarrow> v)"

text \<open>Truthiness of a value: \<open>None\<close> and the empty string are false.\<close>

fun truthy :: "pyval \<Rightarrow> bool" where
  "truthy PyNone = False"
| "truthy (PyStr s) = (s \<noteq> [])"

text \<open>\<open>v or ""\<close> for a string-or-None value.\<close>

fun or_empty :: "pyval \<Rightarrow> string" where
  "or_empty PyNone = []"
| "or_empty (PyStr s) = s"

text \<open>
  \<open>str.strip()\<close> removes leading and trailing whitespace. The whitespace code points
  below 256 are 9 to 13, 28 to 32, 133 and 160.
\<close>

definition is_space :: "char \<Rightarrow> bool" where
  "is_space c = (c \<in> set [CHR 0x09, CHR 0x0A, CHR 0x0B, CHR 0x0C, CHR 0x0D,
     CHR 0x1C, CHR 0x1D, CHR 0x1E, CHR 0x1F, CHR 0x20, CHR 0x85, CHR 0xA0])"

definition strip :: "string \<Rightarrow> string" where
  "strip s = rev (dropWhile is_space (rev (dropWhile is_space s)))"

section \<open>Identity extractor\<close>

text \<open>
  \<open>_STEAM_RUNGAME_RE = re.compile(r"steam://rungameid/(\d+)", re.IGNORECASE)\<close>.
  \<open>search\<close> returns the leftmost match; \<open>\d+\<close> is greedy, so group 1 is the whole
  run of digits after the marker. Below code point 256 the decimal digits are
  \<open>0\<close> to \<open>9\<close> and the case-insensitive partners of the marker's letters are their
  ASCII capitals.
\<close>

definition is_digit :: "char \<Rightarrow> bool" where
  "is_digit c = (c \<in> set ''0123456789'')"

definition lower_ascii :: "char \<Rightarrow> char" where
  "lower_ascii c =
     (case map_of (zip ''ABCDEFGHIJKLMNOPQRSTUVWXYZ'' ''abcdefghijklmnopqrstuvwxyz'') c of
        None \<Rightarrow> c | Some l \<Rightarrow> l)"

definition rungame_marker :: string where
  "rungame_marker = ''steam://rungameid/''"

text \<open>Match a lower-case literal at the start of the text; the rest of the text on success.\<close>

fun match_literal :: "string \<Rightarrow> string \<Rightarrow> string option" where
  "match_literal [] s = Some s"
| "match_literal (p # ps) [] = None"
| "match_literal (p # ps) (c # cs) =
     (if lower_ascii c = p then match_literal ps cs else None)"

text \<open>The whole pattern anchored at the start of the text: group 1 on success.\<close>

definition match_here :: "string \<Rightarrow> string option" where
  "match_here s =
     (case match_literal rungame_marker s of
        None \<Rightarrow> None
      | Some rest \<Rightarrow>
          (let ds = takeWhile is_digit rest in if ds = [] then None else Some ds))"

fun re_search :: "string \<Rightarrow> string option" where
  "re_search [] = match_here []"
| "re_search (c # cs) =
     (case match_here (c # cs) of Some ds \<Rightarrow> Some ds | None \<Rightarrow> re_search cs)"

definition extract_steam_app_id :: "string \<Rightarrow> string option" where
  "extract_steam_app_id cmd = (if cmd = [] then None else re_search cmd)"

section \<open>Entry scorer\<close>

definition score_app_for_keep :: "app \<Rightarrow> int" where
  "score_app_for_keep a =
     (let score = 0;
          score = (if truthy (dict_get a ''image-path'') then score + 10 else score);
          score = (if truthy (dict_get a ''name'') then score + 3 else score)
      in score)"

section \<open>Deduplicator\<close>

record dstate =
  deduped :: "app list"
  removed :: "app list"
  steam_index :: "string \<rightharpoonup> nat"
  other_seen :: "(string \<times> string) set"

definition dedupe_init :: dstate where
  "dedupe_init = \<lparr>deduped = [], removed = [], steam_index = Map.empty, other_seen = {}\<rparr>"

text \<open>The else branch of \<open>if steam_id:\<close>, entries without an identifier.\<close>

definition dedupe_other :: "app \<Rightarrow> string \<Rightarrow> string \<Rightarrow> dstate \<Rightarrow> dstate" where
  "dedupe_other a name cmd s =
     (let key = (name, cmd) in
      if key \<in> other_seen s then s\<lparr>removed := removed s @ [a]\<rparr>
      else s\<lparr>other_seen := insert key (other_seen s), deduped := deduped s @ [a]\<rparr>)"

text \<open>The then branch: \<open>deduped[i]\<close> raises IndexError out of range.\<close>

definition dedupe_steam :: "app \<Rightarrow> string \<Rightarrow> dstate \<Rightarrow> error + dstate" where
  "dedupe_steam a steam_id s =
     (case steam_index s steam_id of
        None \<Rightarrow>
          Inr (s\<lparr>steam_index := (steam_index s)(steam_id \<mapsto> length (deduped s)),
                 deduped := deduped s @ [a]\<rparr>)
      | Some i \<Rightarrow>
          if i < length (deduped s) then
            (let current = deduped s ! i in
             if score_app_for_keep a > score_app_for_keep current
             then Inr (s\<lparr>removed := removed s @ [current], deduped := (deduped s)[i := a]\<rparr>)
             else Inr (s\<lparr>removed := removed s @ [a]\<rparr>))
          else Inl IndexError)"

text \<open>One iteration of the loop body.\<close>

definition dedupe_step :: "app \<Rightarrow> dstate \<Rightarrow> error + dstate" where
  "dedupe_step a s =
     (let cmd = strip (or_empty (dict_get a ''cmd''));
          name = strip (or_empty (dict_get a ''name''))
      in case extract_steam_app_id cmd of
           None \<Rightarrow> Inr (dedupe_other a name cmd s)
         | Some steam_id \<Rightarrow>
             if steam_id \<noteq> [] then dedupe_steam a steam_id s
             else Inr (dedupe_other a name cmd s))"

fun dedupe_loop :: "app list \<Rightarrow> dstate \<Rightarrow> error + dstate" where
  "dedupe_loop [] s = Inr s"
| "dedupe_loop (a # as) s =
     (case dedupe_step a s of Inl e \<Rightarrow> Inl e | Inr s' \<Rightarrow> dedupe_loop as s')"

definition dedupe_sunshine_apps :: "app list \<Rightarrow> error + (app list \<times> app list)" where
  "dedupe_sunshine_apps apps =
     (case dedupe_loop apps dedupe_init of
        Inl e \<Rightarrow> Inl e
      | Inr s \<Rightarrow> Inr (deduped s, removed s))"


section \<open>Retrying network lookups\<close>

text \<open>
  Both lookups run \<open>for attempt in range(3)\<close>. What one attempt does is decided by the
  network and by the \<open>requests\<close> library, so the outcome of attempt \<open>n\<close> is an input.
  The \<open>except\<close> clauses sort exceptions by class: \<open>Timeout\<close> and any other
  \<open>RequestException\<close> fall through to the backoff and the next attempt, every other
  \<open>Exception\<close> returns \<open>None\<close> at once. The class that \<open>resp.json()\<close> raises on an
  undecodable body belongs to the library, not to this program: \<open>requests\<close> from
  version 2.27 on raises \<open>requests.exceptions.JSONDecodeError\<close>, a subclass of
  \<open>RequestException\<close>; older versions raise a plain \<open>ValueError\<close>. It is the
  parameter \<open>json_error_is_request_exception\<close>.
\<close>

datatype name_attempt =
    NameTimeout
  | NameRequestError
  | NameBadJson
  | NameUnexpected
  | NameResponse "string option"

datatype grid_attempt =
    GridTimeout
  | GridRequestError
  | GridBadJson
  | GridUnexpected
  | GridNoData
  | GridImageTimeout
  | GridImageRequestError
  | GridInvalidImage
  | GridSaved

text \<open>How the \<open>try\<close> block of one attempt ends: a \<open>return\<close>, or on to the backoff.\<close>

datatype 'a attempt_end = Return "'a option" | Retry

record 'a lookup =
  result :: "'a option"
  attempts :: nat
  sleeps :: "nat list"

definition name_attempt_end :: "bool \<Rightarrow> name_attempt \<Rightarrow> string attempt_end" where
  "name_attempt_end json_error_is_request_exception out =
     (case out of
        NameTimeout \<Rightarrow> Retry
      | NameRequestError \<Rightarrow> Retry
      | NameBadJson \<Rightarrow> (if json_error_is_request_exception then Retry else Return None)
      | NameUnexpected \<Rightarrow> Return None
      | NameResponse None \<Rightarrow> Return None
      | NameResponse (Some name) \<Rightarrow> (if name \<noteq> [] then Return (Some name) else Return None))"

text \<open>
  A saved grid returns \<open>os.path.join(grids_folder, f"{app_id}.png")\<close>, here the argument
  \<open>grid_path\<close>. Invalid image bytes are caught by the inner \<open>try\<close>.
\<close>

definition grid_attempt_end :: "bool \<Rightarrow> string \<Rightarrow> grid_attempt \<Rightarrow> string attempt_end" where
  "grid_attempt_end json_error_is_request_exception grid_path out =
     (case out of
        GridTimeout \<Rightarrow> Retry
      | GridRequestError \<Rightarrow> Retry
      | GridBadJson \<Rightarrow> (if json_error_is_request_exception then Retry else Return None)
      | GridUnexpected \<Rightarrow> Return None
      | GridNoData \<Rightarrow> Return None
      | GridImageTimeout \<Rightarrow> Retry
      | GridImageRequestError \<Rightarrow> Retry
      | GridInvalidImage \<Rightarrow> Return None
      | GridSaved \<Rightarrow> Return (Some grid_path))"

text \<open>
  The loop over \<open>range(3)\<close>, with the list of attempt numbers still to run. After a
  failed attempt, \<open>if attempt < 2: time.sleep(2 ** attempt)\<close>; the sleeps are recorded
  in seconds. When the list is exhausted the function returns \<open>None\<close>.
\<close>

fun retry_loop :: "(nat \<Rightarrow> 'a attempt_end) \<Rightarrow> nat list \<Rightarrow> 'a lookup \<Rightarrow> 'a lookup" where
  "retry_loop run [] acc = acc\<lparr>result := None\<rparr>"
| "retry_loop run (attempt # rest) acc =
     (case run attempt of
        Return v \<Rightarrow> acc\<lparr>result := v, attempts := attempts acc + 1\<rparr>
      | Retry \<Rightarrow>
          retry_loop run rest
            (acc\<lparr>attempts := attempts acc + 1,
                 sleeps := (if attempt < 2 then sleeps acc @ [2 ^ attempt] else sleeps acc)\<rparr>))"

definition get_game_name :: "bool \<Rightarrow> (nat \<Rightarrow> name_attempt) \<Rightarrow> string lookup" where
  "get_game_name json_error_is_request_exception outcome =
     retry_loop (\<lambda>attempt. name_attempt_end json_error_is_request_exception (outcome attempt))
       [0, 1, 2] \<lparr>result = None, attempts = 0, sleeps = []\<rparr>"

definition fetch_grid_from_steamgriddb ::
  "bool \<Rightarrow> string \<Rightarrow> (nat \<Rightarrow> grid_attempt) \<Rightarrow> string lookup" where
  "fetch_grid_from_steamgriddb json_error_is_request_exception grid_path outcome =
     retry_loop
       (\<lambda>attempt. grid_attempt_end json_error_is_request_exception grid_path (outcome attempt))
       [0, 1, 2] \<lparr>result = None, attempts = 0, sleeps = []\<rparr>"

section \<open>Disk, launchers and configuration\<close>

record sunshine_config =
  apps :: "app list"
  other_keys :: "(string \<times> pyval) list"

datatype content = Directory | ConfigFile sunshine_config | OtherFile

datatype event = RestartSteam | RestartSunshine | SaveConfig

record world =
  files :: "string \<rightharpoonup> content"
  events :: "event list"

record config =
  steam_library_vdf_path :: string
  sunshine_apps_json_path :: string
  sunshine_grids_folder :: string
  steamgriddb_api_key :: string
  steam_exe_path :: string
  sunshine_exe_path :: string

datatype flatpak_result = FlatpakStdout string | FlatpakNotFound | FlatpakRaises

text \<open>
  What the run takes from outside: the platform, the outcome of \<open>validate_config\<close> and
  of \<open>load_installed_games\<close> (a dictionary from app id to name, as its item list), the
  paths the operating system refuses to remove, create or write, the outcome of every
  grid request, the order in which the grid futures complete, and the path functions of
  the platform: \<open>os.path.join\<close>, \<open>os.path.dirname\<close>, \<open>os.path.basename\<close>, and
  \<open>path_heads\<close>, the heads that \<open>os.path.split\<close> yields from a path upwards, nearest
  first, as long as head and tail are both non-empty (the ancestors \<open>os.makedirs\<close>
  walks through). Paths are normalised by \<open>validate_config\<close>, so none has a \<open>.\<close>
  component.
\<close>

record environment =
  os_nt :: bool
  flatpak :: flatpak_result
  validated :: "error + config"
  library :: "error + (string \<times> string) list"
  locked :: "string set"
  json_error_is_request_exception :: bool
  grid_outcome :: "string \<Rightarrow> nat \<Rightarrow> grid_attempt"
  as_completed :: "string set \<Rightarrow> string list"
  path_join :: "string \<Rightarrow> string \<Rightarrow> string"
  dirname :: "string \<Rightarrow> string"
  basename :: "string \<Rightarrow> string"
  path_heads :: "string \<Rightarrow> string list"

record args =
  no_restart :: bool
  dry_run :: bool

text \<open>
  \<open>restart_steam\<close> and \<open>restart_sunshine\<close> return early off Windows and when the
  executable path is empty or missing; otherwise the launcher is terminated and started
  again, every exception being caught.
\<close>

definition restart_steam :: "environment \<Rightarrow> string \<Rightarrow> world \<Rightarrow> world" where
  "restart_steam env steam_exe w =
     (if \<not> os_nt env then w
      else if steam_exe = [] \<or> files w steam_exe = None then w
      else w\<lparr>events := events w @ [RestartSteam]\<rparr>)"

definition restart_sunshine :: "environment \<Rightarrow> string \<Rightarrow> world \<Rightarrow> world" where
  "restart_sunshine env sunshine_exe w =
     (if \<not> os_nt env then w
      else if sunshine_exe = [] \<or> files w sunshine_exe = None then w
      else w\<lparr>events := events w @ [RestartSunshine]\<rparr>)"

text \<open>
  \<open>get_sunshine_config\<close>: an absent file gives the empty configuration; a file that is
  not a JSON dictionary raises. \<open>setdefault("env", "")\<close> adds the key when missing.
\<close>

definition get_sunshine_config :: "world \<Rightarrow> string \<Rightarrow> error + sunshine_config" where
  "get_sunshine_config w path =
     (case files w path of
        None \<Rightarrow> Inr \<lparr>apps = [], other_keys = [(''env'', PyStr [])]\<rparr>
      | Some (ConfigFile c) \<Rightarrow>
          Inr (if map_of (other_keys c) ''env'' = None
               then c\<lparr>other_keys := other_keys c @ [(''env'', PyStr [])]\<rparr> else c)
      | Some _ \<Rightarrow> Inl LoadError)"

text \<open>
  \<open>os.makedirs(name, exist_ok=True)\<close>. Its last step, \<open>mkdir(name)\<close> with the
  \<open>OSError\<close> swallowed when \<open>name\<close> is a directory afterwards: an existing directory is
  accepted, an existing file is an error; the empty name, a refused path and a parent that
  is not a directory are errors; otherwise the directory is created.
\<close>

definition mkdir_exist_ok ::
  "environment \<Rightarrow> string \<Rightarrow> string list \<Rightarrow> world \<Rightarrow> error option \<times> world" where
  "mkdir_exist_ok env name heads w =
     (case files w name of
        Some Directory \<Rightarrow> (None, w)
      | Some _ \<Rightarrow> (Some FolderError, w)
      | None \<Rightarrow>
          if name = [] \<or> name \<in> locked env \<or>
             (case heads of [] \<Rightarrow> False | head # _ \<Rightarrow> files w head \<noteq> Some Directory)
          then (Some FolderError, w)
          else (None, w\<lparr>files := (files w)(name \<mapsto> Directory)\<rparr>))"

text \<open>
  The recursion of \<open>os.makedirs\<close>: when the head of the path does not exist, it is made
  first, with all its own missing ancestors; an error there is raised on. A failure leaves
  the directories made so far.
\<close>

fun makedirs_from ::
  "environment \<Rightarrow> string \<Rightarrow> string list \<Rightarrow> world \<Rightarrow> error option \<times> world" where
  "makedirs_from env name [] w = mkdir_exist_ok env name [] w"
| "makedirs_from env name (head # rest) w =
     (if files w head = None then
        (case makedirs_from env head rest w of
           (Some e, w1) \<Rightarrow> (Some e, w1)
         | (None, w1) \<Rightarrow> mkdir_exist_ok env name (head # rest) w1)
      else mkdir_exist_ok env name (head # rest) w)"

definition makedirs :: "environment \<Rightarrow> string \<Rightarrow> world \<Rightarrow> error option \<times> world" where
  "makedirs env name w = makedirs_from env name (path_heads env name) w"

text \<open>
  \<open>save_sunshine_config\<close>. An existing file is first copied to \<open>path.backup\<close> with
  \<open>shutil.copy2\<close> (into that path when it is a directory); then
  \<open>os.makedirs(os.path.dirname(path), exist_ok=True)\<close>, which raises when the path is a
  bare file name; then the file is written. Any failure is logged and raised again, and
  leaves on disk what the steps before it have done.
\<close>

definition save_sunshine_config ::
  "environment \<Rightarrow> string \<Rightarrow> sunshine_config \<Rightarrow> world \<Rightarrow> error option \<times> world" where
  "save_sunshine_config env path c w =
     (let backup_path = path @ ''.backup'';
          copied =
            (case files w path of
               None \<Rightarrow> (None, w)
             | Some Directory \<Rightarrow> (Some SaveError, w)
             | Some old \<Rightarrow>
                 (let target = (if files w backup_path = Some Directory
                                then path_join env backup_path (basename env path)
                                else backup_path)
                  in if target \<in> locked env \<or> files w target = Some Directory
                     then (Some SaveError, w)
                     else (None, w\<lparr>files := (files w)(target \<mapsto> old)\<rparr>)))
      in case copied of
           (Some e, w1) \<Rightarrow> (Some e, w1)
         | (None, w1) \<Rightarrow>
             (case makedirs env (dirname env path) w1 of
                (Some e, w2) \<Rightarrow> (Some e, w2)
              | (None, w2) \<Rightarrow>
                  if path \<in> locked env \<or> files w2 path = Some Directory
                  then (Some SaveError, w2)
                  else (None, w2\<lparr>files := (files w2)(path \<mapsto> ConfigFile c),
                                  events := events w2 @ [SaveConfig]\<rparr>)))"

section \<open>Reconciler\<close>

text \<open>
  The removal of a grid image in \<open>process_existing_apps\<close>: only when the path is
  non-empty and exists; \<open>os.remove\<close> raises on a directory or a locked path, and the
  exception is caught and logged.
\<close>

definition remove_grid :: "environment \<Rightarrow> pyval \<Rightarrow> world \<Rightarrow> world" where
  "remove_grid env grid_path w =
     (if truthy grid_path \<and> files w (or_empty grid_path) \<noteq> None then
        (if or_empty grid_path \<in> locked env \<or> files w (or_empty grid_path) = Some Directory
         then w
         else w\<lparr>files := (files w)(or_empty grid_path := None)\<rparr>)
      else w)"

record reconciled =
  updated_apps :: "app list"
  removed_games :: "(pyval \<times> string) list"
  existing_steam_apps :: "string set"
  disk :: world

fun process_loop ::
  "environment \<Rightarrow> (string \<times> string) list \<Rightarrow> app list \<Rightarrow> reconciled \<Rightarrow> reconciled" where
  "process_loop env installed_games [] r = r"
| "process_loop env installed_games (a # as) r =
     (let cmd = or_empty (dict_get_default a ''cmd'' (PyStr [])) in
      case extract_steam_app_id cmd of
        None \<Rightarrow>
          process_loop env installed_games as (r\<lparr>updated_apps := updated_apps r @ [a]\<rparr>)
      | Some app_id \<Rightarrow>
          if app_id \<noteq> [] then
            (if map_of installed_games app_id \<noteq> None then
               process_loop env installed_games as
                 (r\<lparr>updated_apps := updated_apps r @ [a],
                    existing_steam_apps := insert app_id (existing_steam_apps r)\<rparr>)
             else
               process_loop env installed_games as
                 (r\<lparr>removed_games := removed_games r @
                       [(dict_get_default a ''name'' (PyStr ''Unknown''), app_id)],
                    disk := remove_grid env (dict_get a ''image-path'') (disk r)\<rparr>))
          else process_loop env installed_games as (r\<lparr>updated_apps := updated_apps r @ [a]\<rparr>))"

definition process_existing_apps ::
  "environment \<Rightarrow> sunshine_config \<Rightarrow> (string \<times> string) list \<Rightarrow> world \<Rightarrow> reconciled" where
  "process_existing_apps env sunshine_config installed_games w =
     process_loop env installed_games (apps sunshine_config)
       \<lparr>updated_apps = [], removed_games = [], existing_steam_apps = {}, disk = w\<rparr>"

text \<open>\<open>new_games = set(installed_games.keys()) - existing_steam_apps\<close>.\<close>

definition new_games_of :: "(string \<times> string) list \<Rightarrow> string set \<Rightarrow> string set" where
  "new_games_of installed_games existing = set (map fst installed_games) - existing"

section \<open>Adding new games\<close>

text \<open>\<open>needle in haystack\<close> for strings.\<close>

fun contains :: "string \<Rightarrow> string \<Rightarrow> bool" where
  "contains needle [] = (needle = [])"
| "contains needle (c # cs) = (prefix needle (c # cs) \<or> contains needle cs)"

text \<open>
  \<open>build_cmd\<close>: the bare URI on Windows; elsewhere the Flatpak wrapper when
  \<open>flatpak list\<close> names the Steam application, the plain \<open>steam\<close> invocation when it
  does not or when the \<open>flatpak\<close> executable is missing (FileNotFoundError is caught).
  Any other failure of the subprocess is raised to the caller.
\<close>

definition build_cmd :: "environment \<Rightarrow> string \<Rightarrow> error + string" where
  "build_cmd env app_id =
     (if os_nt env then Inr (''steam://rungameid/'' @ app_id)
      else
        (case flatpak env of
           FlatpakStdout out \<Rightarrow>
             if contains ''com.valvesoftware.Steam'' out
             then Inr (''flatpak run com.valvesoftware.Steam steam://rungameid/'' @ app_id)
             else Inr (''steam steam://rungameid/'' @ app_id)
         | FlatpakNotFound \<Rightarrow> Inr (''steam steam://rungameid/'' @ app_id)
         | FlatpakRaises \<Rightarrow> Inl SubprocessError))"

text \<open>The dictionary appended to \<open>new_apps\<close>; \<open>grid_path or ""\<close> for the image.\<close>

definition new_app :: "string \<Rightarrow> string \<Rightarrow> string option \<Rightarrow> app" where
  "new_app game_name cmd grid_path =
     [(''name'', PyStr game_name),
      (''cmd'', PyStr cmd),
      (''output'', PyStr []),
      (''detached'', PyStr []),
      (''elevated'', PyStr ''false''),
      (''hidden'', PyStr ''true''),
      (''wait-all'', PyStr ''true''),
      (''exit-timeout'', PyStr ''5''),
      (''image-path'', PyStr (case grid_path of None \<Rightarrow> [] | Some p \<Rightarrow> p))]"

text \<open>
  The loop over the completed futures. A saved grid is a new file on disk. A missing
  name (KeyError) or a failing \<open>build_cmd\<close> is caught by the loop's \<open>except\<close>: the game
  is logged and skipped.
\<close>

fun add_loop ::
  "environment \<Rightarrow> (string \<times> string) list \<Rightarrow> string \<Rightarrow> string list \<Rightarrow>
   app list \<times> world \<Rightarrow> app list \<times> world" where
  "add_loop env installed_games grids_folder [] acc = acc"
| "add_loop env installed_games grids_folder (app_id # rest) (new_apps, w) =
     (let fetched = fetch_grid_from_steamgriddb (json_error_is_request_exception env)
                      (path_join env grids_folder (app_id @ ''.png'')) (grid_outcome env app_id);
          w' = (case result fetched of
                  None \<Rightarrow> w
                | Some p \<Rightarrow> w\<lparr>files := (files w)(p \<mapsto> OtherFile)\<rparr>)
      in case map_of installed_games app_id of
           None \<Rightarrow> add_loop env installed_games grids_folder rest (new_apps, w')
         | Some game_name \<Rightarrow>
             (case build_cmd env app_id of
                Inl e \<Rightarrow> add_loop env installed_games grids_folder rest (new_apps, w')
              | Inr cmd \<Rightarrow>
                  add_loop env installed_games grids_folder rest
                    (new_apps @ [new_app game_name cmd (result fetched)], w')))"

definition add_new_games ::
  "environment \<Rightarrow> string set \<Rightarrow> (string \<times> string) list \<Rightarrow> string \<Rightarrow> world \<Rightarrow>
   app list \<times> world" where
  "add_new_games env new_games installed_games grids_folder w =
     (if new_games = {} then ([], w)
      else add_loop env installed_games grids_folder (as_completed env new_games) ([], w))"

section \<open>Orchestrator\<close>

text \<open>
  \<open>main\<close> up to the computation of \<open>changes_needed\<close>. An error leaves with exit code 1
  and the disk as it is at that point.
\<close>

record diff =
  run_config :: config
  loaded :: sunshine_config
  installed :: "(string \<times> string) list"
  removed_dupes :: "app list"
  reconcile :: reconciled
  new_games :: "string set"

definition main_diff :: "args \<Rightarrow> environment \<Rightarrow> world \<Rightarrow> (nat \<times> world) + diff" where
  "main_diff a env w =
     (case validated env of
        Inl e \<Rightarrow> Inl (1, w)
      | Inr cfg \<Rightarrow>
          (let w1 = (if \<not> no_restart a then restart_steam env (steam_exe_path cfg) w else w) in
           case library env of
             Inl e \<Rightarrow> Inl (1, w1)
           | Inr installed_games \<Rightarrow>
               (case get_sunshine_config w1 (sunshine_apps_json_path cfg) of
                  Inl e \<Rightarrow> Inl (1, w1)
                | Inr sunshine_config \<Rightarrow>
                    (case dedupe_sunshine_apps (apps sunshine_config) of
                       Inl e \<Rightarrow> Inl (1, w1)
                     | Inr (kept, dupes) \<Rightarrow>
                         (let sunshine_config = sunshine_config\<lparr>apps := kept\<rparr> in
                          case makedirs env (sunshine_grids_folder cfg) w1 of
                            (Some e, w2) \<Rightarrow> Inl (1, w2)
                          | (None, w2) \<Rightarrow>
                              (let r = process_existing_apps env sunshine_config
                                         installed_games w2
                               in Inr \<lparr>run_config = cfg,
                                       loaded = sunshine_config,
                                       installed = installed_games,
                                       removed_dupes = dupes,
                                       reconcile = r,
                                       new_games = new_games_of installed_games
                                                     (existing_steam_apps r)\<rparr>))))))"

text \<open>\<open>changes_needed = bool(removed_dupes or removed_games or new_games)\<close>.\<close>

definition changes_needed :: "diff \<Rightarrow> bool" where
  "changes_needed d \<longleftrightarrow>
     removed_dupes d \<noteq> [] \<or> removed_games (reconcile d) \<noteq> [] \<or> new_games d \<noteq> {}"

text \<open>The rest of \<open>main\<close>: add, final dedupe, save, restart.\<close>

definition main_apply :: "args \<Rightarrow> environment \<Rightarrow> diff \<Rightarrow> nat \<times> world" where
  "main_apply a env d =
     (let cfg = run_config d;
          (new_apps, w4) = add_new_games env (new_games d) (installed d)
                             (sunshine_grids_folder cfg) (disk (reconcile d))
      in case dedupe_sunshine_apps (updated_apps (reconcile d) @ new_apps) of
           Inl e \<Rightarrow> (1, w4)
         | Inr (final_apps, removed_after) \<Rightarrow>
             (case save_sunshine_config env (sunshine_apps_json_path cfg)
                     ((loaded d)\<lparr>apps := final_apps\<rparr>) w4 of
                (Some e, w5) \<Rightarrow> (1, w5)
              | (None, w5) \<Rightarrow>
                  (0, if \<not> no_restart a then restart_sunshine env (sunshine_exe_path cfg) w5
                      else w5)))"

definition main :: "args \<Rightarrow> environment \<Rightarrow> world \<Rightarrow> nat \<times> world" where
  "main a env w =
     (case main_diff a env w of
        Inl stop \<Rightarrow> stop
      | Inr d \<Rightarrow>
          if \<not> changes_needed d then (0, disk (reconcile d))
          else if dry_run a then (0, disk (reconcile d))
          else main_apply a env d)"

section \<open>Notions used to state the properties\<close>

text \<open>
  The identifier a launch entry's command yields; an entry is tracked when there is
  one, opaque otherwise.
\<close>

definition steam_id_of :: "app \<Rightarrow> string option" where
  "steam_id_of a = extract_steam_app_id (or_empty (dict_get a ''cmd''))"

text \<open>The key of an opaque entry: trimmed name and trimmed command.\<close>

definition other_key :: "app \<Rightarrow> string \<times> string" where
  "other_key a =
     (strip (or_empty (dict_get a ''name'')), strip (or_empty (dict_get a ''cmd'')))"

text \<open>The identity under which the deduplicator files an entry.\<close>

definition akey :: "app \<Rightarrow> string + (string \<times> string)" where
  "akey a = (case steam_id_of a of Some sid \<Rightarrow> Inl sid | None \<Rightarrow> Inr (other_key a))"

text \<open>Position of the first entry of a list that carries the identifier.\<close>

fun first_with_id :: "string \<Rightarrow> app list \<Rightarrow> nat option" where
  "first_with_id sid [] = None"
| "first_with_id sid (x # xs) =
     (if steam_id_of x = Some sid then Some 0 else map_option Suc (first_with_id sid xs))"

definition keys_of :: "dstate \<Rightarrow> (string + (string \<times> string)) list" where
  "keys_of s = map akey (deduped s)"

text \<open>
  The invariant of the deduplicator's loop: kept entries have pairwise different
  identities, \<open>steam_index\<close> maps exactly each kept identifier to its position, and
  \<open>other_seen\<close> holds exactly the kept opaque keys.
\<close>

definition dinv :: "dstate \<Rightarrow> bool" where
  "dinv s \<longleftrightarrow>
     distinct (keys_of s) \<and>
     (\<forall>sid i. steam_index s sid = Some i \<longleftrightarrow>
        (i < length (keys_of s) \<and> keys_of s ! i = Inl sid)) \<and>
     other_seen s = {k. Inr k \<in> set (keys_of s)}"

text \<open>What one more entry does to the pair (kept, removed).\<close>

definition steam_result ::
  "app \<Rightarrow> string \<Rightarrow> app list \<Rightarrow> app list \<Rightarrow> app list \<times> app list" where
  "steam_result a sid k r =
     (case first_with_id sid k of
        None \<Rightarrow> (k @ [a], r)
      | Some i \<Rightarrow>
          if score_app_for_keep a > score_app_for_keep (k ! i)
          then (k[i := a], r @ [k ! i]) else (k, r @ [a]))"

definition other_result :: "app \<Rightarrow> app list \<Rightarrow> app list \<Rightarrow> app list \<times> app list" where
  "other_result a k r = (if akey a \<in> set (map akey k) then (k, r @ [a]) else (k @ [a], r))"

definition step_result :: "app \<Rightarrow> app list \<Rightarrow> app list \<Rightarrow> app list \<times> app list" where
  "step_result a k r =
     (case steam_id_of a of Some sid \<Rightarrow> steam_result a sid k r | None \<Rightarrow> other_result a k r)"

text \<open>How the reconciler disposes of one entry.\<close>

datatype disposition = Kept | Matched string | Dropped pyval string

definition dispose :: "(string \<times> string) list \<Rightarrow> app \<Rightarrow> disposition" where
  "dispose installed_games a =
     (case steam_id_of a of
        None \<Rightarrow> Kept
      | Some app_id \<Rightarrow>
          if app_id \<in> set (map fst installed_games) then Matched app_id
          else Dropped (dict_get_default a ''name'' (PyStr ''Unknown'')) app_id)"

fun is_dropped :: "disposition \<Rightarrow> bool" where
  "is_dropped (Dropped n i) = True"
| "is_dropped d = False"

fun dropped_pair :: "disposition \<Rightarrow> (pyval \<times> string) list" where
  "dropped_pair (Dropped n i) = [(n, i)]"
| "dropped_pair d = []"

fun matched_id :: "disposition \<Rightarrow> string set" where
  "matched_id (Matched i) = {i}"
| "matched_id d = {}"

text \<open>Example entries: one identifier, with artwork, bare, and with name and artwork.\<close>

definition entry_art :: app where
  "entry_art = [(''cmd'', PyStr ''steam://rungameid/10''), (''image-path'', PyStr ''x.png'')]"

definition entry_bare :: app where
  "entry_bare = [(''cmd'', PyStr ''steam://rungameid/10'')]"

definition entry_full :: app where
  "entry_full = [(''name'', PyStr ''G''), (''cmd'', PyStr ''steam://rungameid/10''),
     (''image-path'', PyStr ''y.png'')]"

definition entry_named :: app where
  "entry_named = [(''name'', PyStr ''G''), (''cmd'', PyStr ''steam://rungameid/10'')]"

text \<open>
  An example configuration and environment: Linux without Flatpak, two installed games,
  and a working directory in which every path is a bare name (no directory part, no
  ancestors).
\<close>

definition config_example :: config where
  "config_example =
     \<lparr>steam_library_vdf_path = ''libraryfolders.vdf'',
      sunshine_apps_json_path = ''apps.json'',
      sunshine_grids_folder = ''grids'',
      steamgriddb_api_key = ''key'',
      steam_exe_path = [],
      sunshine_exe_path = []\<rparr>"

definition env_example :: environment where
  "env_example =
     \<lparr>os_nt = False,
      flatpak = FlatpakNotFound,
      validated = Inr config_example,
      library = Inr [(''100'', ''Game100''), (''200'', ''Game200'')],
      locked = {},
      json_error_is_request_exception = True,
      grid_outcome = (\<lambda>app_id attempt. GridNoData),
      as_completed = (\<lambda>new_games. []),
      path_join = (\<lambda>folder file. folder @ ''/'' @ file),
      dirname = (\<lambda>path. []),
      basename = (\<lambda>path. path),
      path_heads = (\<lambda>path. [])\<rparr>"

text \<open>Which outcomes of an attempt lead to another attempt.\<close>

definition name_retried :: "bool \<Rightarrow> name_attempt \<Rightarrow> bool" where
  "name_retried retry_json out \<longleftrightarrow>
     out = NameTimeout \<or> out = NameRequestError \<or>
     (retry_json \<and> out = NameBadJson)"

definition grid_retried :: "bool \<Rightarrow> grid_attempt \<Rightarrow> bool" where
  "grid_retried retry_json out \<longleftrightarrow>
     out = GridTimeout \<or> out = GridRequestError \<or> out = GridImageTimeout \<or>
     out = GridImageRequestError \<or> (retry_json \<and> out = GridBadJson)"

text \<open>The backoff before attempt \<open>n\<close>: 1, 2, 4, ... seconds after attempts 0, 1, 2, ...\<close>

definition backoff :: "nat \<Rightarrow> nat list" where
  "backoff n = map (\<lambda>attempt. 2 ^ attempt) [0..<n]"

text \<open>The artwork path of an entry, empty when it has none.\<close>

definition artwork :: "app \<Rightarrow> string" where
  "artwork a = or_empty (dict_get a ''image-path'')"

text \<open>One step of the reconciler's loop, by disposition.\<close>

definition reconcile_step ::
  "environment \<Rightarrow> (string \<times> string) list \<Rightarrow> app \<Rightarrow> reconciled \<Rightarrow> reconciled" where
  "reconcile_step env installed_games a r =
     (case dispose installed_games a of
        Kept \<Rightarrow> r\<lparr>updated_apps := updated_apps r @ [a]\<rparr>
      | Matched app_id \<Rightarrow>
          r\<lparr>updated_apps := updated_apps r @ [a],
            existing_steam_apps := insert app_id (existing_steam_apps r)\<rparr>
      | Dropped n app_id \<Rightarrow>
          r\<lparr>removed_games := removed_games r @ [(n, app_id)],
            disk := remove_grid env (dict_get a ''image-path'') (disk r)\<rparr>)"

text \<open>Example entries and disk for the reconciler.\<close>

definition entry_opaque :: app where
  "entry_opaque = [(''name'', PyStr ''Foo''), (''cmd'', PyStr ''foo.sh'')]"

definition entry_200 :: app where
  "entry_200 = [(''name'', PyStr ''Game200''), (''cmd'', PyStr ''steam://rungameid/200'')]"

definition world_example :: world where
  "world_example = \<lparr>files = [''x.png'' \<mapsto> OtherFile], events = []\<rparr>"

text \<open>Example entries, disks and arguments for whole runs.\<close>

definition entry_100 :: app where
  "entry_100 = [(''name'', PyStr ''Game100''), (''cmd'', PyStr ''steam://rungameid/100'')]"

definition world_two_tracked :: world where
  "world_two_tracked =
     \<lparr>files = [''apps.json'' \<mapsto> ConfigFile \<lparr>apps = [entry_100, entry_200],
                                               other_keys = [(''env'', PyStr [])]\<rparr>],
      events = []\<rparr>"

definition world_stale :: world where
  "world_stale =
     \<lparr>files = [''apps.json'' \<mapsto> ConfigFile \<lparr>apps = [entry_art],
                                               other_keys = [(''env'', PyStr [])]\<rparr>,
               ''x.png'' \<mapsto> OtherFile],
      events = []\<rparr>"

definition args_dry_run :: args where
  "args_dry_run = \<lparr>no_restart = True, dry_run = True\<rparr>"

definition args_plain :: args where
  "args_plain = \<lparr>no_restart = False, dry_run = False\<rparr>"

definition env_three_installed :: environment where
  "env_three_installed =
     env_example\<lparr>library := Inr [(''100'', ''Game100''), (''200'', ''Game200''),
                                   (''300'', ''Game300'')]\<rparr>"

section \<open>Identity extractor: basic facts\<close>

lemma match_here_nonempty: "match_here s = Some ds \<Longrightarrow> ds \<noteq> []"
  by (auto simp: match_here_def Let_def split: option.splits if_splits)

lemma re_search_nonempty: "re_search s = Some ds \<Longrightarrow> ds \<noteq> []"
  by (induction s) (auto split: option.splits dest: match_here_nonempty)

lemma extract_nonempty: "extract_steam_app_id s = Some ds \<Longrightarrow> ds \<noteq> []"
  by (auto simp: extract_steam_app_id_def split: if_splits dest: re_search_nonempty)



lemma space_cases:
  "is_space c \<Longrightarrow> c = CHR 0x09 \<or> c = CHR 0x0A \<or> c = CHR 0x0B \<or> c = CHR 0x0C \<or> c = CHR 0x0D \<or>
     c = CHR 0x1C \<or> c = CHR 0x1D \<or> c = CHR 0x1E \<or> c = CHR 0x1F \<or> c = CHR 0x20 \<or> c = CHR 0x85 \<or> c = CHR 0xA0"
  by (simp add: is_space_def)

lemma space_lower: "is_space c \<Longrightarrow> lower_ascii c = c"
  by (drule space_cases) (elim disjE; simp add: lower_ascii_def)

lemma space_not_marker: "is_space c \<Longrightarrow> lower_ascii c \<notin> set rungame_marker"
  by (drule space_cases) (elim disjE; simp add: lower_ascii_def rungame_marker_def)

lemma space_not_digit: "is_space c \<Longrightarrow> \<not> is_digit c"
  by (drule space_cases) (elim disjE; simp add: is_digit_def)

lemma match_here_Nil: "match_here [] = None"
  by (simp add: match_here_def rungame_marker_def)

lemma match_here_space: "is_space c \<Longrightarrow> match_here (c # cs) = None"
  using space_not_marker[of c] by (simp add: match_here_def rungame_marker_def)

lemma re_search_dropWhile: "re_search (dropWhile is_space s) = re_search s"
proof (induction s)
  case Nil
  show ?case by simp
next
  case (Cons c cs)
  show ?case
  proof (cases "is_space c")
    case True
    then have "re_search (c # cs) = re_search cs" by (simp add: match_here_space)
    with True Cons show ?thesis by simp
  next
    case False
    then show ?thesis by simp
  qed
qed

lemma match_literal_spaces:
  "\<forall>c\<in>set ws. is_space c \<Longrightarrow> \<forall>c. is_space c \<longrightarrow> lower_ascii c \<notin> set p \<Longrightarrow>
   p \<noteq> [] \<Longrightarrow>
   match_literal p (t @ ws) = map_option (\<lambda>r. r @ ws) (match_literal p t)"
proof (induction p t rule: match_literal.induct)
  case (1 s)
  then show ?case by simp
next
  case (2 p ps)
  then show ?case by (cases ws) auto
next
  case (3 p ps c cs)
  show ?case
  proof (cases ps)
    case Nil
    then show ?thesis by simp
  next
    case (Cons q qs)
    then show ?thesis using 3 by simp
  qed
qed

lemma takeWhile_digit_spaces:
  "\<forall>c\<in>set ws. is_space c \<Longrightarrow> takeWhile is_digit (r @ ws) = takeWhile is_digit r"
proof -
  assume a: "\<forall>c\<in>set ws. is_space c"
  then have e: "takeWhile is_digit ws = []" by (cases ws) (auto dest: space_not_digit)
  show ?thesis
  proof (cases "\<forall>x\<in>set r. is_digit x")
    case True
    then have "takeWhile is_digit r = r" by (metis takeWhile_eq_all_conv)
    moreover have "takeWhile is_digit (r @ ws) = r @ takeWhile is_digit ws"
      using True by (simp add: takeWhile_append)
    ultimately show ?thesis using e by (metis append_Nil2)
  next
    case False
    then show ?thesis by (auto simp: takeWhile_append)
  qed
qed

lemma match_here_spaces:
  assumes "\<forall>c\<in>set ws. is_space c"
  shows "match_here (t @ ws) = match_here t"
proof -
  have ne: "rungame_marker \<noteq> []" by (simp add: rungame_marker_def)
  have "match_literal rungame_marker (t @ ws) =
          map_option (\<lambda>r. r @ ws) (match_literal rungame_marker t)"
    using assms space_not_marker ne by (intro match_literal_spaces) auto
  then show ?thesis
    using takeWhile_digit_spaces[OF assms]
    by (simp add: match_here_def split: option.splits)
qed

lemma re_search_spaces_only: "\<forall>c\<in>set ws. is_space c \<Longrightarrow> re_search ws = None"
proof (induction ws)
  case Nil
  show ?case by (simp add: match_here_Nil)
next
  case (Cons c cs)
  then have "match_here (c # cs) = None" by (simp add: match_here_space)
  with Cons show ?case by simp
qed

lemma re_search_trailing:
  assumes "\<forall>c\<in>set ws. is_space c"
  shows "re_search (t @ ws) = re_search t"
proof (induction t)
  case Nil
  then show ?case using re_search_spaces_only[OF assms] by (simp add: match_here_Nil)
next
  case (Cons c cs)
  have "match_here ((c # cs) @ ws) = match_here (c # cs)" by (rule match_here_spaces[OF assms])
  then show ?case using Cons by (simp split: option.splits)
qed

lemma re_search_strip: "re_search (strip s) = re_search s"
proof -
  let ?u = "dropWhile is_space s"
  let ?ws = "rev (takeWhile is_space (rev ?u))"
  have sp: "\<forall>c\<in>set ?ws. is_space c" by (auto dest: set_takeWhileD)
  have "rev (dropWhile is_space (rev ?u)) @ ?ws = rev (rev ?u)"
    unfolding rev_append[symmetric] by (simp only: takeWhile_dropWhile_id)
  then have "strip s @ ?ws = ?u" by (simp only: strip_def rev_rev_ident)
  then have "re_search ?u = re_search (strip s @ ?ws)" by simp
  also have "\<dots> = re_search (strip s)" by (rule re_search_trailing[OF sp])
  finally show ?thesis by (simp only: re_search_dropWhile)
qed

lemma extract_is_search: "extract_steam_app_id s = re_search s"
  by (simp add: extract_steam_app_id_def match_here_Nil)

lemma extract_strip: "extract_steam_app_id (strip s) = extract_steam_app_id s"
  by (simp add: extract_is_search re_search_strip)

section \<open>Deduplicator: the loop invariant\<close>

lemma steam_id_strip:
  "extract_steam_app_id (strip (or_empty (dict_get a ''cmd''))) = steam_id_of a"
  by (simp add: steam_id_of_def extract_strip)

lemma dedupe_step_tracked:
  "steam_id_of a = Some sid \<Longrightarrow> dedupe_step a s = dedupe_steam a sid s"
  using extract_nonempty[of "or_empty (dict_get a ''cmd'')" sid]
  by (simp add: dedupe_step_def steam_id_strip Let_def) (simp add: steam_id_of_def)

lemma dedupe_step_opaque:
  "steam_id_of a = None \<Longrightarrow>
   dedupe_step a s = Inr (dedupe_other a (fst (other_key a)) (snd (other_key a)) s)"
  by (simp add: dedupe_step_def steam_id_strip other_key_def Let_def)

lemma dinv_init: "dinv dedupe_init"
  by (simp add: dinv_def dedupe_init_def keys_of_def)

lemma akey_Inl: "akey a = Inl sid \<longleftrightarrow> steam_id_of a = Some sid"
  by (simp add: akey_def split: option.splits)

lemma akey_Inl': "Inl sid = akey a \<longleftrightarrow> steam_id_of a = Some sid"
  by (auto simp: akey_def split: option.splits)

lemma akey_Inr: "akey a = Inr k \<longleftrightarrow> steam_id_of a = None \<and> other_key a = k"
  by (auto simp: akey_def split: option.splits)

lemma first_with_id_None: "first_with_id sid xs = None \<longleftrightarrow> Inl sid \<notin> set (map akey xs)"
  by (induction xs) (auto simp: akey_Inl akey_Inl')

lemma first_with_id_Some:
  "first_with_id sid xs = Some i \<Longrightarrow> i < length xs \<and> akey (xs ! i) = Inl sid"
  by (induction xs arbitrary: i) (auto simp: akey_Inl split: if_splits)

lemma index_is_first:
  assumes "dinv s"
  shows "steam_index s sid = first_with_id sid (deduped s)"
proof (cases "first_with_id sid (deduped s)")
  case None
  then have "Inl sid \<notin> set (keys_of s)" by (simp add: first_with_id_None keys_of_def)
  then have "\<And>i. \<not> (i < length (keys_of s) \<and> keys_of s ! i = Inl sid)"
    by (metis nth_mem)
  with assms have "\<And>i. steam_index s sid \<noteq> Some i" by (simp add: dinv_def)
  with None show ?thesis by (cases "steam_index s sid") auto
next
  case (Some i)
  from first_with_id_Some[OF Some] assms have "steam_index s sid = Some i"
    by (simp add: dinv_def keys_of_def)
  with Some show ?thesis by simp
qed

lemma map_akey_update:
  "i < length xs \<Longrightarrow> akey (xs ! i) = akey a \<Longrightarrow> map akey (xs[i := a]) = map akey xs"
  by (simp add: map_update list_update_same_conv)

lemma dedupe_steam_new:
  assumes inv: "dinv s" and tr: "steam_id_of a = Some sid" and idx: "steam_index s sid = None"
  shows "\<exists>s'. dedupe_steam a sid s = Inr s' \<and> dinv s' \<and>
              (deduped s', removed s') = (deduped s @ [a], removed s)"
proof -
  let ?s' = "s\<lparr>steam_index := (steam_index s)(sid \<mapsto> length (deduped s)),
                 deduped := deduped s @ [a]\<rparr>"
  have run: "dedupe_steam a sid s = Inr ?s'" using idx by (simp add: dedupe_steam_def)
  have ks: "keys_of ?s' = keys_of s @ [Inl sid]"
    using tr by (simp add: keys_of_def akey_Inl)
  have len: "length (keys_of s) = length (deduped s)" by (simp add: keys_of_def)
  have "\<And>i. \<not> (i < length (keys_of s) \<and> keys_of s ! i = Inl sid)"
    using inv idx unfolding dinv_def by (metis option.distinct(1))
  then have notin: "Inl sid \<notin> set (keys_of s)"
    by (metis in_set_conv_nth)
  have d: "distinct (keys_of ?s')" using inv notin by (simp add: ks dinv_def)
  have o: "other_seen ?s' = {k. Inr k \<in> set (keys_of ?s')}"
    using inv by (auto simp: ks dinv_def)
  have i: "steam_index ?s' sid' = Some i \<longleftrightarrow>
             (i < length (keys_of ?s') \<and> keys_of ?s' ! i = Inl sid')" for sid' i
  proof (cases "i < length (keys_of s)")
    case True
    then have "keys_of ?s' ! i = keys_of s ! i" by (simp add: ks nth_append)
    moreover have "sid' = sid \<Longrightarrow> keys_of s ! i \<noteq> Inl sid'" using notin True by (metis nth_mem)
    ultimately show ?thesis using inv True len by (auto simp: dinv_def ks)
  next
    case False
    then have "\<And>x. steam_index s x \<noteq> Some i" using inv by (auto simp: dinv_def)
    then show ?thesis using False len by (auto simp: ks nth_append)
  qed
  have "dinv ?s'" unfolding dinv_def using d o i by blast
  with run show ?thesis by simp
qed

lemma dedupe_steam_seen:
  assumes inv: "dinv s" and tr: "steam_id_of a = Some sid" and idx: "steam_index s sid = Some i"
  shows "\<exists>s'. dedupe_steam a sid s = Inr s' \<and> dinv s' \<and>
              (deduped s', removed s') =
                (if score_app_for_keep a > score_app_for_keep (deduped s ! i)
                 then ((deduped s)[i := a], removed s @ [deduped s ! i])
                 else (deduped s, removed s @ [a]))"
proof -
  have il: "i < length (deduped s)" and ik: "akey (deduped s ! i) = Inl sid"
    using inv idx by (auto simp: dinv_def keys_of_def)
  have "akey a = Inl sid" using tr by (simp add: akey_Inl)
  with ik have "akey (deduped s ! i) = akey a" by simp
  with il have same: "map akey ((deduped s)[i := a]) = map akey (deduped s)"
    by (rule map_akey_update)
  show ?thesis
  proof (cases "score_app_for_keep a > score_app_for_keep (deduped s ! i)")
    case True
    let ?s' = "s\<lparr>removed := removed s @ [deduped s ! i], deduped := (deduped s)[i := a]\<rparr>"
    have "dedupe_steam a sid s = Inr ?s'" using idx il True by (simp add: dedupe_steam_def)
    moreover have "keys_of ?s' = keys_of s" using same by (simp add: keys_of_def)
    then have "dinv ?s'" using inv by (simp add: dinv_def)
    ultimately show ?thesis using True by simp
  next
    case False
    let ?s' = "s\<lparr>removed := removed s @ [a]\<rparr>"
    have "dedupe_steam a sid s = Inr ?s'" using idx il False by (simp add: dedupe_steam_def)
    moreover have "keys_of ?s' = keys_of s" by (simp add: keys_of_def)
    then have "dinv ?s'" using inv by (simp add: dinv_def)
    ultimately show ?thesis using False by simp
  qed
qed

lemma dedupe_step_steam:
  assumes inv: "dinv s" and tr: "steam_id_of a = Some sid"
  shows "\<exists>s'. dedupe_step a s = Inr s' \<and> dinv s' \<and>
              (deduped s', removed s') = steam_result a sid (deduped s) (removed s)"
proof (cases "steam_index s sid")
  case None
  then have "first_with_id sid (deduped s) = None" using index_is_first[OF inv] by simp
  then show ?thesis
    using dedupe_steam_new[OF inv tr None] by (simp add: dedupe_step_tracked[OF tr] steam_result_def)
next
  case (Some i)
  then have "first_with_id sid (deduped s) = Some i" using index_is_first[OF inv] by simp
  then show ?thesis
    using dedupe_steam_seen[OF inv tr Some] by (simp add: dedupe_step_tracked[OF tr] steam_result_def)
qed

lemma dedupe_step_other:
  assumes inv: "dinv s" and op: "steam_id_of a = None"
  shows "\<exists>s'. dedupe_step a s = Inr s' \<and> dinv s' \<and>
              (deduped s', removed s') = other_result a (deduped s) (removed s)"
proof -
  have ak: "akey a = Inr (other_key a)" using op by (simp add: akey_def)
  have seen: "other_key a \<in> other_seen s \<longleftrightarrow> akey a \<in> set (keys_of s)"
    using inv ak by (simp add: dinv_def)
  show ?thesis
  proof (cases "other_key a \<in> other_seen s")
    case True
    let ?s' = "s\<lparr>removed := removed s @ [a]\<rparr>"
    have "dedupe_step a s = Inr ?s'"
      using True by (simp add: dedupe_step_opaque[OF op] dedupe_other_def)
    moreover have "keys_of ?s' = keys_of s" by (simp add: keys_of_def)
    then have "dinv ?s'" using inv by (simp add: dinv_def)
    ultimately show ?thesis using True seen by (simp add: other_result_def keys_of_def)
  next
    case False
    let ?s' = "s\<lparr>other_seen := insert (other_key a) (other_seen s), deduped := deduped s @ [a]\<rparr>"
    have run: "dedupe_step a s = Inr ?s'"
      using False by (simp add: dedupe_step_opaque[OF op] dedupe_other_def)
    have ks: "keys_of ?s' = keys_of s @ [Inr (other_key a)]" using ak by (simp add: keys_of_def)
    have notin: "Inr (other_key a) \<notin> set (keys_of s)" using False seen ak by simp
    have d: "distinct (keys_of s @ [Inr (other_key a)])"
      using inv notin by (simp add: dinv_def)
    have o: "insert (other_key a) (other_seen s) = {k. Inr k \<in> set (keys_of s @ [Inr (other_key a)])}"
      using inv by (auto simp: dinv_def)
    have i: "steam_index s sid = Some i \<longleftrightarrow>
              (i < length (keys_of s @ [Inr (other_key a)]) \<and>
               (keys_of s @ [Inr (other_key a)]) ! i = Inl sid)" for sid i
      using inv by (cases "i < length (keys_of s)") (auto simp: dinv_def nth_append)
    have "dinv ?s'" unfolding dinv_def ks using d o i by simp
    with run show ?thesis using False seen by (simp add: other_result_def keys_of_def)
  qed
qed

lemma dedupe_loop_snoc:
  "dedupe_loop (xs @ [a]) s =
     (case dedupe_loop xs s of Inl e \<Rightarrow> Inl e | Inr s' \<Rightarrow> dedupe_step a s')"
  by (induction xs arbitrary: s) (auto split: sum.splits)

lemma dedupe_step_result:
  assumes "dinv s"
  shows "\<exists>s'. dedupe_step a s = Inr s' \<and> dinv s' \<and>
              (deduped s', removed s') = step_result a (deduped s) (removed s)"
proof (cases "steam_id_of a")
  case None
  then show ?thesis using dedupe_step_other[OF assms None] by (simp add: step_result_def)
next
  case (Some sid)
  then show ?thesis using dedupe_step_steam[OF assms Some] by (simp add: step_result_def)
qed

lemma dedupe_loop_inv:
  "dinv s \<Longrightarrow> \<exists>s'. dedupe_loop xs s = Inr s' \<and> dinv s'"
proof (induction xs arbitrary: s)
  case Nil
  then show ?case by simp
next
  case (Cons a xs)
  from dedupe_step_result[OF Cons.prems, of a] obtain s1
    where "dedupe_step a s = Inr s1" "dinv s1" by blast
  then show ?case using Cons.IH[of s1] by simp
qed

lemma dedupe_total:
  "\<exists>s. dedupe_loop xs dedupe_init = Inr s \<and> dinv s \<and>
       dedupe_sunshine_apps xs = Inr (deduped s, removed s)"
  using dedupe_loop_inv[OF dinv_init, of xs] by (auto simp: dedupe_sunshine_apps_def)

lemma dedupe_snoc:
  "\<exists>k r. dedupe_sunshine_apps xs = Inr (k, r) \<and> distinct (map akey k) \<and>
         dedupe_sunshine_apps (xs @ [a]) = Inr (step_result a k r)"
proof -
  from dedupe_total[of xs] obtain s where s: "dedupe_loop xs dedupe_init = Inr s" "dinv s"
    "dedupe_sunshine_apps xs = Inr (deduped s, removed s)" by blast
  from dedupe_step_result[OF s(2), of a] obtain s' where s': "dedupe_step a s = Inr s'"
    "(deduped s', removed s') = step_result a (deduped s) (removed s)" by blast
  have "dedupe_sunshine_apps (xs @ [a]) = Inr (step_result a (deduped s) (removed s))"
    using s(1) s' by (simp add: dedupe_sunshine_apps_def dedupe_loop_snoc)
  moreover have "distinct (map akey (deduped s))" using s(2) by (simp add: dinv_def keys_of_def)
  ultimately show ?thesis using s(3) by blast
qed

lemma distinct_keys_filter_id:
  "distinct (map akey k) \<Longrightarrow> length (filter (\<lambda>x. steam_id_of x = Some sid) k) \<le> 1"
proof (induction k)
  case Nil
  then show ?case by simp
next
  case (Cons x k)
  show ?case
  proof (cases "steam_id_of x = Some sid")
    case True
    then have "akey x = Inl sid" by (simp add: akey_Inl)
    with Cons.prems have "Inl sid \<notin> set (map akey k)" by auto
    then have "\<forall>y\<in>set k. steam_id_of y \<noteq> Some sid" by (auto simp: akey_Inl' image_iff)
    then have "filter (\<lambda>x. steam_id_of x = Some sid) k = []" by (simp add: filter_empty_conv)
    with True show ?thesis by simp
  next
    case False
    with Cons show ?thesis by simp
  qed
qed

lemma dedupe_loop_fresh:
  "dinv s \<Longrightarrow> distinct (map akey xs) \<Longrightarrow> set (map akey xs) \<inter> set (keys_of s) = {} \<Longrightarrow>
   \<exists>s'. dedupe_loop xs s = Inr s' \<and> deduped s' = deduped s @ xs \<and> removed s' = removed s"
proof (induction xs arbitrary: s)
  case Nil
  then show ?case by simp
next
  case (Cons a xs)
  from dedupe_step_result[OF Cons.prems(1), of a] obtain s1 where s1:
    "dedupe_step a s = Inr s1" "dinv s1"
    "(deduped s1, removed s1) = step_result a (deduped s) (removed s)" by blast
  have fresh: "akey a \<notin> set (map akey (deduped s))"
    using Cons.prems(3) by (auto simp: keys_of_def)
  have "step_result a (deduped s) (removed s) = (deduped s @ [a], removed s)"
  proof (cases "steam_id_of a")
    case None
    then show ?thesis using fresh by (simp add: step_result_def other_result_def)
  next
    case (Some sid)
    then have "akey a = Inl sid" by (simp add: akey_Inl)
    with fresh have "first_with_id sid (deduped s) = None" by (simp add: first_with_id_None)
    then show ?thesis using Some by (simp add: step_result_def steam_result_def)
  qed
  with s1 have d1: "deduped s1 = deduped s @ [a]" "removed s1 = removed s" by simp_all
  have "set (map akey xs) \<inter> set (keys_of s1) = {}"
    using Cons.prems(2,3) d1 by (auto simp: keys_of_def)
  from Cons.IH[OF s1(2) _ this] Cons.prems(2) obtain s' where
    "dedupe_loop xs s1 = Inr s'" "deduped s' = deduped s1 @ xs" "removed s' = removed s1"
    by auto
  then show ?case using s1(1) d1 by simp
qed

lemma dedupe_of_distinct:
  "distinct (map akey xs) \<Longrightarrow> dedupe_sunshine_apps xs = Inr (xs, [])"
  using dedupe_loop_fresh[OF dinv_init, of xs]
  by (auto simp: dedupe_sunshine_apps_def dedupe_init_def keys_of_def)

section \<open>Deduplicator: properties\<close>

lemma extract_ten: "extract_steam_app_id ''steam://rungameid/10'' = Some ''10''"
  by (simp add: extract_steam_app_id_def match_here_def rungame_marker_def lower_ascii_def
      is_digit_def)

lemma steam_id_examples:
  "steam_id_of entry_art = Some ''10''"
  "steam_id_of entry_bare = Some ''10''"
  "steam_id_of entry_full = Some ''10''"
  by (simp_all add: steam_id_of_def entry_art_def entry_bare_def entry_full_def dict_get_def
      extract_ten)

lemma score_examples:
  "score_app_for_keep entry_art = 10"
  "score_app_for_keep entry_bare = 0"
  "score_app_for_keep entry_full = 13"
  by (simp_all add: score_app_for_keep_def entry_art_def entry_bare_def entry_full_def
      dict_get_def)

lemma entries_differ:
  "entry_art \<noteq> entry_bare" "entry_art \<noteq> entry_full" "entry_bare \<noteq> entry_full"
  by (simp_all add: entry_art_def entry_bare_def entry_full_def)

lemma dedupe_art_bare: "dedupe_sunshine_apps [entry_art, entry_bare] = Inr ([entry_art], [entry_bare])"
  by (simp add: dedupe_sunshine_apps_def dedupe_init_def dedupe_step_tracked steam_id_examples
      dedupe_steam_def score_examples)

text \<open>
  C1, as stated, fails in its last part. With three entries of one identifier, the first
  with artwork only, the second bare, the third with name and artwork, the second is
  removed first and the first is removed when the third displaces it: \<open>removed\<close> lists
  the second before the first, against their order in the input.
\<close>

theorem dedupe_removed_order_counterexample:
  "dedupe_sunshine_apps [entry_art, entry_bare, entry_full] = Inr ([entry_full], [entry_bare, entry_art])
   \<and> \<not> subseq [entry_bare, entry_art] [entry_art, entry_bare, entry_full]"
  by (simp add: dedupe_sunshine_apps_def dedupe_init_def dedupe_step_tracked steam_id_examples
      dedupe_steam_def score_examples entries_differ entries_differ[symmetric])

lemma opaque_key_seen:
  assumes "steam_id_of a = None"
  shows "akey a \<in> set (map akey k) \<longleftrightarrow>
         other_key a \<in> set (map other_key (filter (\<lambda>x. steam_id_of x = None) k))"
proof -
  have "akey a = Inr (other_key a)" using assms by (simp add: akey_def)
  moreover have "Inr key \<in> set (map akey k) \<longleftrightarrow>
      key \<in> set (map other_key (filter (\<lambda>x. steam_id_of x = None) k))" for key
    by (induction k) (auto simp: akey_def split: option.splits)
  ultimately show ?thesis by simp
qed

lemma steam_id_opaque: "steam_id_of entry_opaque = None"
  by (simp add: steam_id_of_def entry_opaque_def dict_get_def extract_steam_app_id_def
      match_here_def rungame_marker_def lower_ascii_def)

lemma dedupe_opaque_alone: "dedupe_sunshine_apps [entry_opaque] = Inr ([entry_opaque], [])"
  by (rule dedupe_of_distinct) simp

text \<open>
  C1, amended. Entries are processed in order: the result for the empty input is two empty
  lists, and the result for an input extended by one entry \<open>a\<close> is determined by the
  result \<open>(k, r)\<close> for the input before it, as follows. The kept entries \<open>k\<close> have
  pairwise different identities, so at most one of them carries a given identifier. If
  \<open>a\<close> is tracked with identifier \<open>sid\<close> and no kept entry carries \<open>sid\<close>, \<open>a\<close> is
  appended to the kept list. If one does, \<open>a\<close> replaces it in place, at its position,
  exactly when its score is strictly higher, and the displaced entry is appended to
  \<open>removed\<close>; if not (ties included), \<open>a\<close> itself is appended to \<open>removed\<close>. If \<open>a\<close>
  is opaque, it is appended to \<open>removed\<close> when a kept opaque entry has its trimmed name
  and command, and to the kept list otherwise. So every step leaves \<open>removed\<close> as it is
  or appends one entry at its end: \<open>removed\<close> is in the order of removal, which is not
  always the order of the input.
\<close>

theorem dedupe_one_more_entry:
  "dedupe_sunshine_apps [] = Inr ([], []) \<and>
   (\<exists>k r. dedupe_sunshine_apps xs = Inr (k, r) \<and>
      distinct (map akey k) \<and>
      (\<forall>sid. length (filter (\<lambda>x. steam_id_of x = Some sid) k) \<le> 1) \<and>
      dedupe_sunshine_apps (xs @ [a]) =
        Inr (case steam_id_of a of
               Some sid \<Rightarrow>
                 (case first_with_id sid k of
                    None \<Rightarrow> (k @ [a], r)
                  | Some i \<Rightarrow>
                      if score_app_for_keep a > score_app_for_keep (k ! i)
                      then (k[i := a], r @ [k ! i])
                      else (k, r @ [a]))
             | None \<Rightarrow>
                 if other_key a \<in> set (map other_key (filter (\<lambda>x. steam_id_of x = None) k))
                 then (k, r @ [a])
                 else (k @ [a], r)))"
proof -
  have base: "dedupe_sunshine_apps [] = Inr ([], [])"
    by (simp add: dedupe_sunshine_apps_def dedupe_init_def)
  from dedupe_snoc[of xs a] obtain k r where kr:
    "dedupe_sunshine_apps xs = Inr (k, r)" "distinct (map akey k)"
    "dedupe_sunshine_apps (xs @ [a]) = Inr (step_result a k r)" by blast
  have one: "\<forall>sid. length (filter (\<lambda>x. steam_id_of x = Some sid) k) \<le> 1"
    using distinct_keys_filter_id[OF kr(2)] by blast
  have "step_result a k r =
        (case steam_id_of a of
               Some sid \<Rightarrow>
                 (case first_with_id sid k of
                    None \<Rightarrow> (k @ [a], r)
                  | Some i \<Rightarrow>
                      if score_app_for_keep a > score_app_for_keep (k ! i)
                      then (k[i := a], r @ [k ! i])
                      else (k, r @ [a]))
             | None \<Rightarrow>
                 if other_key a \<in> set (map other_key (filter (\<lambda>x. steam_id_of x = None) k))
                 then (k, r @ [a])
                 else (k @ [a], r))"
  proof (cases "steam_id_of a")
    case None
    then show ?thesis
      using opaque_key_seen[OF None, of k] by (simp add: step_result_def other_result_def)
  next
    case (Some sid)
    then show ?thesis by (simp add: step_result_def steam_result_def)
  qed
  with kr(3) have snoc: "dedupe_sunshine_apps (xs @ [a]) =
        Inr (case steam_id_of a of
               Some sid \<Rightarrow>
                 (case first_with_id sid k of
                    None \<Rightarrow> (k @ [a], r)
                  | Some i \<Rightarrow>
                      if score_app_for_keep a > score_app_for_keep (k ! i)
                      then (k[i := a], r @ [k ! i])
                      else (k, r @ [a]))
             | None \<Rightarrow>
                 if other_key a \<in> set (map other_key (filter (\<lambda>x. steam_id_of x = None) k))
                 then (k, r @ [a])
                 else (k @ [a], r))"
    by (simp only:)
  show ?thesis
  proof (rule conjI[OF base], rule exI[of _ k], rule exI[of _ r], intro conjI)
    show "dedupe_sunshine_apps xs = Inr (k, r)" by (rule kr(1))
    show "distinct (map akey k)" by (rule kr(2))
    show "\<forall>sid. length (filter (\<lambda>x. steam_id_of x = Some sid) k) \<le> 1" by (rule one)
    show "dedupe_sunshine_apps (xs @ [a]) =
        Inr (case steam_id_of a of
               Some sid \<Rightarrow>
                 (case first_with_id sid k of
                    None \<Rightarrow> (k @ [a], r)
                  | Some i \<Rightarrow>
                      if score_app_for_keep a > score_app_for_keep (k ! i)
                      then (k[i := a], r @ [k ! i])
                      else (k, r @ [a]))
             | None \<Rightarrow>
                 if other_key a \<in> set (map other_key (filter (\<lambda>x. steam_id_of x = None) k))
                 then (k, r @ [a])
                 else (k @ [a], r))" by (rule snoc)
  qed
qed



text \<open>
  The theorem at two concrete inputs: a third tracked entry that displaces the kept one,
  and an opaque entry met a second time.
\<close>

theorem dedupe_one_more_entry_witness:
  "dedupe_sunshine_apps ([entry_art, entry_bare] @ [entry_full]) =
     Inr ([entry_full], [entry_bare, entry_art]) \<and>
   dedupe_sunshine_apps ([entry_opaque] @ [entry_opaque]) = Inr ([entry_opaque], [entry_opaque])"
proof
  from dedupe_one_more_entry[of "[entry_art, entry_bare]" entry_full] obtain k r where
    kr: "dedupe_sunshine_apps [entry_art, entry_bare] = Inr (k, r)" and
    eq: "dedupe_sunshine_apps ([entry_art, entry_bare] @ [entry_full]) =
        Inr (case steam_id_of entry_full of
               Some sid \<Rightarrow>
                 (case first_with_id sid k of
                    None \<Rightarrow> (k @ [entry_full], r)
                  | Some i \<Rightarrow>
                      if score_app_for_keep entry_full > score_app_for_keep (k ! i)
                      then (k[i := entry_full], r @ [k ! i])
                      else (k, r @ [entry_full]))
             | None \<Rightarrow>
                 if other_key entry_full \<in> set (map other_key (filter (\<lambda>x. steam_id_of x = None) k))
                 then (k, r @ [entry_full])
                 else (k @ [entry_full], r))"
    by blast
  from kr dedupe_art_bare have "k = [entry_art]" "r = [entry_bare]" by simp_all
  with eq show "dedupe_sunshine_apps ([entry_art, entry_bare] @ [entry_full]) =
     Inr ([entry_full], [entry_bare, entry_art])"
    by (simp add: steam_id_examples score_examples)
next
  from dedupe_one_more_entry[of "[entry_opaque]" entry_opaque] obtain k r where
    kr: "dedupe_sunshine_apps [entry_opaque] = Inr (k, r)" and
    eq: "dedupe_sunshine_apps ([entry_opaque] @ [entry_opaque]) =
        Inr (case steam_id_of entry_opaque of
               Some sid \<Rightarrow>
                 (case first_with_id sid k of
                    None \<Rightarrow> (k @ [entry_opaque], r)
                  | Some i \<Rightarrow>
                      if score_app_for_keep entry_opaque > score_app_for_keep (k ! i)
                      then (k[i := entry_opaque], r @ [k ! i])
                      else (k, r @ [entry_opaque]))
             | None \<Rightarrow>
                 if other_key entry_opaque \<in> set (map other_key (filter (\<lambda>x. steam_id_of x = None) k))
                 then (k, r @ [entry_opaque])
                 else (k @ [entry_opaque], r))"
    by blast
  from kr dedupe_opaque_alone have "k = [entry_opaque]" "r = []" by simp_all
  with eq show "dedupe_sunshine_apps ([entry_opaque] @ [entry_opaque]) =
     Inr ([entry_opaque], [entry_opaque])"
    by (simp add: steam_id_opaque)
qed

text \<open>
  C4. Deduplication is idempotent: it returns a result on every input, and run again on
  its kept list it returns that list unchanged and removes nothing.
\<close>

theorem dedupe_idempotent:
  "\<exists>k r. dedupe_sunshine_apps x = Inr (k, r) \<and> dedupe_sunshine_apps k = Inr (k, [])"
proof -
  from dedupe_total[of x] obtain s where "dinv s"
    "dedupe_sunshine_apps x = Inr (deduped s, removed s)" by blast
  moreover from this have "dedupe_sunshine_apps (deduped s) = Inr (deduped s, [])"
    by (intro dedupe_of_distinct) (simp add: dinv_def keys_of_def)
  ultimately show ?thesis by blast
qed

lemma score_additive:
  "score_app_for_keep x =
     (if truthy (dict_get x ''image-path'') then 10 else 0) +
     (if truthy (dict_get x ''name'') then 3 else 0)"
  by (simp add: score_app_for_keep_def)

lemma dedupe_pair_same_id:
  assumes "steam_id_of a = Some sid" "steam_id_of b = Some sid"
  shows "dedupe_sunshine_apps [a, b] =
           Inr (if score_app_for_keep b > score_app_for_keep a then ([b], [a]) else ([a], [b]))"
  using assms
  by (simp add: dedupe_sunshine_apps_def dedupe_init_def dedupe_step_tracked dedupe_steam_def)

text \<open>
  C5. Of two tracked entries with the same identifier, one with a non-empty artwork path
  and one without, the deduplicator keeps the one with artwork and removes the other, in
  both input orders. The score is the sum of 10 for a non-empty artwork path and 3 for a
  non-empty name, so artwork alone outweighs a name.
\<close>

theorem dedupe_prefers_artwork:
  assumes "steam_id_of a = Some sid" and "steam_id_of b = Some sid"
    and "truthy (dict_get a ''image-path'')" and "\<not> truthy (dict_get b ''image-path'')"
  shows "dedupe_sunshine_apps [a, b] = Inr ([a], [b]) \<and>
         dedupe_sunshine_apps [b, a] = Inr ([a], [b]) \<and>
         score_app_for_keep a > score_app_for_keep b \<and>
         (\<forall>x. score_app_for_keep x =
            (if truthy (dict_get x ''image-path'') then 10 else 0) +
            (if truthy (dict_get x ''name'') then 3 else 0))"
proof -
  have gt: "score_app_for_keep a > score_app_for_keep b"
    using assms(3,4) by (simp add: score_additive)
  have "dedupe_sunshine_apps [a, b] = Inr ([a], [b])"
    using dedupe_pair_same_id[OF assms(1,2)] gt by simp
  moreover have "dedupe_sunshine_apps [b, a] = Inr ([a], [b])"
    using dedupe_pair_same_id[OF assms(2,1)] gt by simp
  ultimately show ?thesis using gt score_additive by blast
qed

lemma entry_named_facts:
  "steam_id_of entry_named = Some ''10''"
  "\<not> truthy (dict_get entry_named ''image-path'')"
  "truthy (dict_get entry_art ''image-path'')"
  by (simp_all add: steam_id_of_def entry_named_def entry_art_def dict_get_def extract_ten)

text \<open>The theorem at two concrete entries, the one without artwork carrying a name.\<close>

theorem dedupe_prefers_artwork_witness:
  "steam_id_of entry_art = Some ''10'' \<and> steam_id_of entry_named = Some ''10'' \<and>
   truthy (dict_get entry_art ''image-path'') \<and> \<not> truthy (dict_get entry_named ''image-path'') \<and>
   dedupe_sunshine_apps [entry_art, entry_named] = Inr ([entry_art], [entry_named]) \<and>
   dedupe_sunshine_apps [entry_named, entry_art] = Inr ([entry_art], [entry_named])"
  using dedupe_prefers_artwork[OF steam_id_examples(1) entry_named_facts(1) entry_named_facts(3)
      entry_named_facts(2)]
  by (simp add: steam_id_examples entry_named_facts)

section \<open>Launch commands of new entries\<close>

lemma takeWhile_all_digits: "\<forall>c\<in>set ds. is_digit c \<Longrightarrow> takeWhile is_digit ds = ds"
  by (metis takeWhile_eq_all_conv)

lemma match_here_marker:
  assumes "ds \<noteq> []" and "\<forall>c\<in>set ds. is_digit c"
  shows "match_here (''steam://rungameid/'' @ ds) = Some ds"
proof -
  have "match_literal rungame_marker (''steam://rungameid/'' @ ds) = Some ds"
    by (simp add: rungame_marker_def lower_ascii_def)
  then show ?thesis
    using assms(1) by (simp add: match_here_def Let_def takeWhile_all_digits[OF assms(2)])
qed

lemma extract_windows:
  assumes "ds \<noteq> []" and "\<forall>c\<in>set ds. is_digit c"
  shows "extract_steam_app_id (''steam://rungameid/'' @ ds) = Some ds"
  using match_here_marker[OF assms] by (simp add: extract_steam_app_id_def)

lemma match_here_fail:
  "lower_ascii c \<noteq> CHR ''s'' \<Longrightarrow> match_here (c # cs) = None"
  by (simp add: match_here_def rungame_marker_def)

lemma extract_plain:
  assumes "ds \<noteq> []" and "\<forall>c\<in>set ds. is_digit c"
  shows "extract_steam_app_id (''steam steam://rungameid/'' @ ds) = Some ds"
proof -
  have a: "match_here (''steam steam://rungameid/'' @ ds) = None"
    by (simp add: match_here_def rungame_marker_def lower_ascii_def)
  have b: "match_here (''team steam://rungameid/'' @ ds) = None"
       "match_here (''eam steam://rungameid/'' @ ds) = None"
       "match_here (''am steam://rungameid/'' @ ds) = None"
       "match_here (''m steam://rungameid/'' @ ds) = None"
       "match_here ('' steam://rungameid/'' @ ds) = None"
    by (simp_all add: match_here_fail lower_ascii_def)
  show ?thesis using a b match_here_marker[OF assms]
    by (simp add: extract_steam_app_id_def)
qed


lemma extract_flatpak:
  assumes "ds \<noteq> []" and "\<forall>c\<in>set ds. is_digit c"
  shows "extract_steam_app_id (''flatpak run com.valvesoftware.Steam steam://rungameid/'' @ ds)
           = Some ds"
proof -
  have "re_search (''flatpak run com.valvesoftware.Steam steam://rungameid/'' @ ds)
          = re_search (''steam://rungameid/'' @ ds)"
    by (simp add: match_here_def rungame_marker_def lower_ascii_def)
  then show ?thesis using match_here_marker[OF assms]
    by (simp add: extract_steam_app_id_def)
qed


lemma steam_id_new_app: "steam_id_of (new_app game_name cmd grid_path) = extract_steam_app_id cmd"
  by (simp add: steam_id_of_def new_app_def dict_get_def)

text \<open>
  C10. For a non-empty identifier made of decimal digits, whatever command \<open>build_cmd\<close>
  returns (the bare URI on Windows, the Flatpak-wrapped invocation, the plain \<open>steam\<close>
  invocation), the identity extractor applied to it returns exactly that identifier; so
  the entry the add phase builds from it is a tracked entry for that game.
\<close>

theorem build_cmd_roundtrip:
  assumes "app_id \<noteq> []" and "\<forall>c\<in>set app_id. is_digit c"
    and "build_cmd env app_id = Inr cmd"
  shows "extract_steam_app_id cmd = Some app_id \<and>
         steam_id_of (new_app game_name cmd grid_path) = Some app_id \<and>
         cmd \<in> {''steam://rungameid/'' @ app_id,
                 ''flatpak run com.valvesoftware.Steam steam://rungameid/'' @ app_id,
                 ''steam steam://rungameid/'' @ app_id}"
proof -
  note ex = extract_windows[OF assms(1,2)] extract_flatpak[OF assms(1,2)]
    extract_plain[OF assms(1,2)]
  have c: "cmd \<in> {''steam://rungameid/'' @ app_id,
                 ''flatpak run com.valvesoftware.Steam steam://rungameid/'' @ app_id,
                 ''steam steam://rungameid/'' @ app_id}"
    using assms(3) by (auto simp: build_cmd_def split: if_splits flatpak_result.splits)
  then have "extract_steam_app_id cmd = Some app_id" using ex by auto
  then show ?thesis using c by (simp only: steam_id_new_app simp_thms)
qed

lemma digits_730: "''730'' \<noteq> [] \<and> (\<forall>c\<in>set ''730''. is_digit c)"
  by (simp add: is_digit_def)

lemma build_cmd_examples:
  "build_cmd (env_example\<lparr>os_nt := True\<rparr>) ''730'' = Inr ''steam://rungameid/730''"
  "build_cmd (env_example\<lparr>flatpak := FlatpakStdout ''com.valvesoftware.Steam''\<rparr>) ''730'' =
     Inr ''flatpak run com.valvesoftware.Steam steam://rungameid/730''"
  "build_cmd env_example ''730'' = Inr ''steam steam://rungameid/730''"
  by (simp_all add: build_cmd_def env_example_def)

text \<open>The theorem at identifier 730 on each of the three branches.\<close>

theorem build_cmd_roundtrip_witness:
  "build_cmd (env_example\<lparr>os_nt := True\<rparr>) ''730'' = Inr ''steam://rungameid/730'' \<and>
   extract_steam_app_id ''steam://rungameid/730'' = Some ''730'' \<and>
   build_cmd (env_example\<lparr>flatpak := FlatpakStdout ''com.valvesoftware.Steam''\<rparr>) ''730'' =
     Inr ''flatpak run com.valvesoftware.Steam steam://rungameid/730'' \<and>
   extract_steam_app_id ''flatpak run com.valvesoftware.Steam steam://rungameid/730'' = Some ''730'' \<and>
   build_cmd env_example ''730'' = Inr ''steam steam://rungameid/730'' \<and>
   extract_steam_app_id ''steam steam://rungameid/730'' = Some ''730''"
  using digits_730
    build_cmd_roundtrip[OF conjunct1[OF digits_730] conjunct2[OF digits_730] build_cmd_examples(1)]
    build_cmd_roundtrip[OF conjunct1[OF digits_730] conjunct2[OF digits_730] build_cmd_examples(2)]
    build_cmd_roundtrip[OF conjunct1[OF digits_730] conjunct2[OF digits_730] build_cmd_examples(3)]
    build_cmd_examples
  by simp

section \<open>Retrying network lookups: properties\<close>

lemma backoff_simps: "backoff 0 = []" "backoff (Suc 0) = [1]" "backoff 2 = [1, 2]"
  by (simp_all add: backoff_def upt_rec)

lemma name_retried_end:
  "name_attempt_end j out = Retry \<longleftrightarrow> name_retried j out"
  by (cases out) (auto simp: name_attempt_end_def name_retried_def split: option.splits)

lemma grid_retried_end:
  "grid_attempt_end j p out = Retry \<longleftrightarrow> grid_retried j out"
  by (cases out) (auto simp: grid_attempt_end_def grid_retried_def)

lemma retry_loop_exhausted:
  assumes "\<forall>n<3. run n = Retry"
  shows "retry_loop run [0, 1, 2] \<lparr>result = None, attempts = 0, sleeps = []\<rparr> =
           \<lparr>result = None, attempts = 3, sleeps = [1, 2]\<rparr>"
proof -
  have "run 0 = Retry" "run 1 = Retry" "run 2 = Retry" using assms by simp_all
  then show ?thesis by simp
qed

lemma retry_loop_returns:
  assumes "n < 3" and "\<forall>k<n. run k = Retry" and "run n = Return v"
  shows "retry_loop run [0, 1, 2] \<lparr>result = None, attempts = 0, sleeps = []\<rparr> =
           \<lparr>result = v, attempts = n + 1, sleeps = backoff n\<rparr>"
proof -
  from assms(1) consider "n = 0" | "n = 1" | "n = 2" by linarith
  then show ?thesis
  proof cases
    case 1
    then show ?thesis using assms by (simp add: backoff_simps)
  next
    case 2
    then have "run 0 = Retry" "run 1 = Return v" using assms by simp_all
    with 2 show ?thesis by (simp add: backoff_simps)
  next
    case 3
    then have "run 0 = Retry" "run 1 = Retry" "run 2 = Return v" using assms by simp_all
    with 3 show ?thesis by (simp add: backoff_simps)
  qed
qed


lemma get_game_name_exhausted:
  "\<forall>n<3. name_retried j (names n) \<Longrightarrow>
   get_game_name j names = \<lparr>result = None, attempts = 3, sleeps = [1, 2]\<rparr>"
  unfolding get_game_name_def by (rule retry_loop_exhausted) (simp add: name_retried_end)

lemma fetch_grid_exhausted:
  "\<forall>n<3. grid_retried j (grids n) \<Longrightarrow>
   fetch_grid_from_steamgriddb j p grids = \<lparr>result = None, attempts = 3, sleeps = [1, 2]\<rparr>"
  unfolding fetch_grid_from_steamgriddb_def
  by (rule retry_loop_exhausted) (simp add: grid_retried_end)

lemma get_game_name_stops:
  "n < 3 \<Longrightarrow> \<forall>k<n. name_retried j (names k) \<Longrightarrow> name_attempt_end j (names n) = Return v \<Longrightarrow>
   get_game_name j names = \<lparr>result = v, attempts = n + 1, sleeps = backoff n\<rparr>"
  unfolding get_game_name_def by (rule retry_loop_returns) (simp_all add: name_retried_end)

lemma fetch_grid_stops:
  "n < 3 \<Longrightarrow> \<forall>k<n. grid_retried j (grids k) \<Longrightarrow> grid_attempt_end j p (grids n) = Return v \<Longrightarrow>
   fetch_grid_from_steamgriddb j p grids = \<lparr>result = v, attempts = n + 1, sleeps = backoff n\<rparr>"
  unfolding fetch_grid_from_steamgriddb_def
  by (rule retry_loop_returns) (simp_all add: grid_retried_end)

text \<open>
  C9, as stated, fails in its second half. When the library raises the JSON decode error
  as a \<open>RequestException\<close> (every \<open>requests\<close> release from 2.27 on), the clause
  \<open>except requests.exceptions.RequestException\<close> catches it before \<open>except Exception\<close>:
  a body that is not JSON is retried like a network error, three attempts with sleeps
  of 1 and 2 seconds, in the name lookup and in the artwork fetch.
\<close>

theorem bad_json_retried_counterexample:
  "get_game_name True (\<lambda>attempt. NameBadJson) = \<lparr>result = None, attempts = 3, sleeps = [1, 2]\<rparr> \<and>
   fetch_grid_from_steamgriddb True ''g/1.png'' (\<lambda>attempt. GridBadJson) =
     \<lparr>result = None, attempts = 3, sleeps = [1, 2]\<rparr>"
  by (simp add: get_game_name_def fetch_grid_from_steamgriddb_def name_attempt_end_def
      grid_attempt_end_def)


text \<open>
  C9, amended. An attempt that ends in a timeout or in any other exception of the
  \<open>requests\<close> hierarchy (connection failure, HTTP error status, a failed image
  download, and a JSON decode failure exactly when the library raises it inside that
  hierarchy) is followed by another attempt. Three such attempts in a row end the lookup
  with no result, after sleeps of 1 and 2 seconds. The first attempt \<open>n\<close> that ends
  otherwise ends the lookup at once: \<open>n + 1\<close> attempts, the sleeps \<open>1, 2, ...\<close> of the
  \<open>n\<close> failed attempts before it, and no result unless the attempt delivered a name or
  saved a grid. Invalid image bytes are never retried. The lookup is a total function:
  it returns in every case, so a failing item never fails the batch.
\<close>

theorem retry_policy:
  "name_retried j NameTimeout \<and> name_retried j NameRequestError \<and>
   grid_retried j GridTimeout \<and> grid_retried j GridRequestError \<and>
   grid_retried j GridImageTimeout \<and> grid_retried j GridImageRequestError \<and>
   \<not> grid_retried j GridInvalidImage \<and>
   (name_retried j NameBadJson \<longleftrightarrow> j) \<and> (grid_retried j GridBadJson \<longleftrightarrow> j) \<and>
   ((\<forall>k<3. name_retried j (names k)) \<longrightarrow>
      get_game_name j names = \<lparr>result = None, attempts = 3, sleeps = [1, 2]\<rparr>) \<and>
   ((\<forall>k<3. grid_retried j (grids k)) \<longrightarrow>
      fetch_grid_from_steamgriddb j p grids = \<lparr>result = None, attempts = 3, sleeps = [1, 2]\<rparr>) \<and>
   (n < 3 \<and> (\<forall>k<n. name_retried j (names k)) \<and> \<not> name_retried j (names n) \<longrightarrow>
      get_game_name j names =
        \<lparr>result = (case names n of
                      NameResponse (Some name) \<Rightarrow> if name \<noteq> [] then Some name else None
                    | _ \<Rightarrow> None),
         attempts = n + 1, sleeps = backoff n\<rparr>) \<and>
   (n < 3 \<and> (\<forall>k<n. grid_retried j (grids k)) \<and> \<not> grid_retried j (grids n) \<longrightarrow>
      fetch_grid_from_steamgriddb j p grids =
        \<lparr>result = (if grids n = GridSaved then Some p else None),
         attempts = n + 1, sleeps = backoff n\<rparr>)"
proof -
  have classes: "name_retried j NameTimeout \<and> name_retried j NameRequestError \<and>
   grid_retried j GridTimeout \<and> grid_retried j GridRequestError \<and>
   grid_retried j GridImageTimeout \<and> grid_retried j GridImageRequestError \<and>
   \<not> grid_retried j GridInvalidImage \<and>
   (name_retried j NameBadJson \<longleftrightarrow> j) \<and> (grid_retried j GridBadJson \<longleftrightarrow> j)"
    by (simp add: name_retried_def grid_retried_def)
  have name_end: "name_attempt_end j (names n) =
      Return (case names n of
                NameResponse (Some name) \<Rightarrow> if name \<noteq> [] then Some name else None
              | _ \<Rightarrow> None)" if "\<not> name_retried j (names n)"
    using that by (cases "names n")
      (auto simp: name_attempt_end_def name_retried_def split: option.splits)
  have grid_end: "grid_attempt_end j p (grids n) =
      Return (if grids n = GridSaved then Some p else None)" if "\<not> grid_retried j (grids n)"
    using that by (cases "grids n") (auto simp: grid_attempt_end_def grid_retried_def)
  show ?thesis
    using classes get_game_name_exhausted[of j names] fetch_grid_exhausted[of j grids p]
      get_game_name_stops[of n j names, OF _ _ name_end]
      fetch_grid_stops[of n j grids p, OF _ _ grid_end]
    by blast
qed

text \<open>
  The theorem at concrete outcomes: a timeout followed by a name; three timeouts; a
  request error followed by invalid image bytes; a JSON decode failure raised outside
  the \<open>requests\<close> hierarchy.
\<close>

theorem retry_policy_witness:
  "get_game_name True (\<lambda>attempt. if attempt = 0 then NameTimeout else NameResponse (Some ''Portal''))
     = \<lparr>result = Some ''Portal'', attempts = 2, sleeps = [1]\<rparr> \<and>
   fetch_grid_from_steamgriddb False ''grids/620.png'' (\<lambda>attempt. GridTimeout)
     = \<lparr>result = None, attempts = 3, sleeps = [1, 2]\<rparr> \<and>
   fetch_grid_from_steamgriddb False ''grids/620.png''
       (\<lambda>attempt. if attempt = 0 then GridRequestError else GridInvalidImage)
     = \<lparr>result = None, attempts = 2, sleeps = [1]\<rparr> \<and>
   get_game_name False (\<lambda>attempt. NameBadJson) = \<lparr>result = None, attempts = 1, sleeps = []\<rparr>"
  using
    retry_policy[of True "\<lambda>attempt. if attempt = 0 then NameTimeout else NameResponse (Some ''Portal'')"
       "\<lambda>attempt. GridTimeout" "''grids/620.png''" 1]
    retry_policy[of False "\<lambda>attempt. NameBadJson" "\<lambda>attempt. GridTimeout" "''grids/620.png''" 0]
    retry_policy[of False "\<lambda>attempt. NameBadJson"
       "\<lambda>attempt. if attempt = 0 then GridRequestError else GridInvalidImage" "''grids/620.png''" 1]
  by (simp add: backoff_simps name_retried_def grid_retried_def)

section \<open>Reconciler: properties\<close>

lemma or_empty_cmd_default:
  "or_empty (dict_get_default a k (PyStr [])) = or_empty (dict_get a k)"
  by (simp add: dict_get_default_def dict_get_def split: option.splits)

lemma in_installed: "map_of installed_games app_id \<noteq> None \<longleftrightarrow> app_id \<in> set (map fst installed_games)"
  by (simp add: map_of_eq_None_iff)

lemma process_loop_Cons:
  "process_loop env installed_games (a # as) r =
     process_loop env installed_games as (reconcile_step env installed_games a r)"
proof (cases "steam_id_of a")
  case None
  then show ?thesis
    by (simp add: reconcile_step_def dispose_def steam_id_of_def or_empty_cmd_default)
next
  case (Some app_id)
  then have ne: "app_id \<noteq> []" by (auto simp: steam_id_of_def dest: extract_nonempty)
  show ?thesis
    using Some ne in_installed[of installed_games app_id]
    by (simp add: reconcile_step_def dispose_def steam_id_of_def or_empty_cmd_default
        del: process_loop.simps(2)) (simp add: or_empty_cmd_default)
qed


lemma truthy_artwork: "truthy (dict_get a ''image-path'') \<longleftrightarrow> artwork a \<noteq> []"
  by (cases "dict_get a ''image-path''") (simp_all add: artwork_def)

lemma remove_grid_events: "events (remove_grid env v w) = events w"
  by (simp add: remove_grid_def)

lemma remove_grid_files:
  "files (remove_grid env v w) p = files w p \<or>
   (files (remove_grid env v w) p = None \<and> p = or_empty v \<and> truthy v)"
  by (simp add: remove_grid_def)

lemma remove_grid_done:
  "truthy v \<Longrightarrow> or_empty v \<notin> locked env \<Longrightarrow> files w (or_empty v) \<noteq> Some Directory \<Longrightarrow>
   files (remove_grid env v w) (or_empty v) = None"
  by (simp add: remove_grid_def)

lemma process_loop_lists:
  "updated_apps (process_loop env inst as r) =
     updated_apps r @ filter (\<lambda>a. \<not> is_dropped (dispose inst a)) as \<and>
   removed_games (process_loop env inst as r) =
     removed_games r @ concat (map (\<lambda>a. dropped_pair (dispose inst a)) as) \<and>
   existing_steam_apps (process_loop env inst as r) =
     existing_steam_apps r \<union> \<Union> (set (map (\<lambda>a. matched_id (dispose inst a)) as)) \<and>
   events (disk (process_loop env inst as r)) = events (disk r)"
proof (induction as arbitrary: r)
  case Nil
  show ?case by simp
next
  case (Cons a as)
  show ?case
    using Cons.IH[of "reconcile_step env inst a r"]
    unfolding process_loop_Cons
    by (cases "dispose inst a") (simp_all add: reconcile_step_def remove_grid_events)
qed

lemma process_loop_frame:
  "files (disk (process_loop env inst as r)) p = files (disk r) p \<or>
   (files (disk (process_loop env inst as r)) p = None \<and>
    (\<exists>a\<in>set as. is_dropped (dispose inst a) \<and> artwork a = p \<and> p \<noteq> []))"
proof (induction as arbitrary: r)
  case Nil
  show ?case by simp
next
  case (Cons a as)
  let ?r1 = "reconcile_step env inst a r"
  have step: "files (disk ?r1) p = files (disk r) p \<or>
     (files (disk ?r1) p = None \<and> is_dropped (dispose inst a) \<and> artwork a = p \<and> p \<noteq> [])"
  proof (cases "dispose inst a")
    case (Dropped n i)
    then show ?thesis
      using remove_grid_files[of env "dict_get a ''image-path''" "disk r" p]
      by (auto simp: reconcile_step_def artwork_def truthy_artwork)
  qed (simp_all add: reconcile_step_def)
  from Cons.IH[of ?r1] step show ?case
    unfolding process_loop_Cons by auto
qed

lemma process_loop_deletes:
  assumes "a \<in> set as" and "is_dropped (dispose inst a)" and "artwork a \<noteq> []"
    and "artwork a \<notin> locked env" and "files (disk r) (artwork a) \<noteq> Some Directory"
  shows "files (disk (process_loop env inst as r)) (artwork a) = None"
  using assms
proof (induction as arbitrary: r)
  case Nil
  then show ?case by simp
next
  case (Cons b as)
  let ?r1 = "reconcile_step env inst b r"
  have keep: "files (disk ?r1) (artwork a) = files (disk r) (artwork a) \<or>
              files (disk ?r1) (artwork a) = None"
  proof (cases "dispose inst b")
    case (Dropped n i)
    then show ?thesis
      using remove_grid_files[of env "dict_get b ''image-path''" "disk r" "artwork a"]
      by (auto simp: reconcile_step_def)
  qed (simp_all add: reconcile_step_def)
  show ?case
  proof (cases "a = b")
    case True
    from Cons.prems(2) obtain n i where d: "dispose inst a = Dropped n i"
      by (cases "dispose inst a") simp_all
    have "files (disk ?r1) (artwork a) = None"
      using True d Cons.prems(3,4,5)
        remove_grid_done[of "dict_get a ''image-path''" env "disk r"]
      by (simp add: reconcile_step_def artwork_def truthy_artwork[unfolded artwork_def])
    then have "files (disk (process_loop env inst as ?r1)) (artwork a) = None"
      using process_loop_frame[of env inst as ?r1 "artwork a"] by auto
    then show ?thesis unfolding process_loop_Cons by simp
  next
    case False
    with Cons.prems(1) have "a \<in> set as" by simp
    moreover have "files (disk ?r1) (artwork a) \<noteq> Some Directory"
      using keep Cons.prems(5) by auto
    ultimately show ?thesis
      unfolding process_loop_Cons using Cons.IH[of ?r1] Cons.prems(2,3,4) by simp
  qed
qed


lemma process_existing_apps_helper:
  "updated_apps (process_existing_apps env cfg inst w) =
     filter (\<lambda>a. \<not> is_dropped (dispose inst a)) (apps cfg) \<and>
   removed_games (process_existing_apps env cfg inst w) =
     concat (map (\<lambda>a. dropped_pair (dispose inst a)) (apps cfg)) \<and>
   existing_steam_apps (process_existing_apps env cfg inst w) =
     \<Union> (set (map (\<lambda>a. matched_id (dispose inst a)) (apps cfg))) \<and>
   events (disk (process_existing_apps env cfg inst w)) = events w"
  using process_loop_lists[of env inst "apps cfg"
      "\<lparr>updated_apps = [], removed_games = [], existing_steam_apps = {}, disk = w\<rparr>"]
  by (simp add: process_existing_apps_def)

text \<open>
  C2. Reconciliation disposes of every entry by the rule of \<open>dispose\<close>: an entry whose
  command yields no identifier is kept; one whose identifier is a key of the installed
  games is kept and its identifier joins the matched set; one whose identifier is not a
  key is dropped and recorded with its name (\<open>Unknown\<close> when the entry has no name key)
  and identifier. The three results are the same whatever the disk and whatever removals
  fail. On disk nothing changes except that artwork files of dropped entries disappear;
  the artwork of a dropped entry is gone afterwards unless its removal fails (a locked
  path or a directory). No launcher is restarted and nothing is saved.
\<close>

theorem process_existing_apps_dispositions:
  "updated_apps (process_existing_apps env cfg inst w) =
     filter (\<lambda>a. \<not> is_dropped (dispose inst a)) (apps cfg) \<and>
   removed_games (process_existing_apps env cfg inst w) =
     concat (map (\<lambda>a. dropped_pair (dispose inst a)) (apps cfg)) \<and>
   existing_steam_apps (process_existing_apps env cfg inst w) =
     \<Union> (set (map (\<lambda>a. matched_id (dispose inst a)) (apps cfg))) \<and>
   events (disk (process_existing_apps env cfg inst w)) = events w \<and>
   (\<forall>p. files (disk (process_existing_apps env cfg inst w)) p = files w p \<or>
        (files (disk (process_existing_apps env cfg inst w)) p = None \<and>
         (\<exists>a\<in>set (apps cfg). is_dropped (dispose inst a) \<and> artwork a = p \<and> p \<noteq> []))) \<and>
   (\<forall>a\<in>set (apps cfg).
      is_dropped (dispose inst a) \<and> artwork a \<noteq> [] \<and> artwork a \<notin> locked env \<and>
      files w (artwork a) \<noteq> Some Directory \<longrightarrow>
      files (disk (process_existing_apps env cfg inst w)) (artwork a) = None)"
proof -
  let ?r0 = "\<lparr>updated_apps = [], removed_games = [], existing_steam_apps = {}, disk = w\<rparr>"
  have "\<forall>p. files (disk (process_existing_apps env cfg inst w)) p = files w p \<or>
        (files (disk (process_existing_apps env cfg inst w)) p = None \<and>
         (\<exists>a\<in>set (apps cfg). is_dropped (dispose inst a) \<and> artwork a = p \<and> p \<noteq> []))"
    using process_loop_frame[of env inst "apps cfg" ?r0]
    by (simp add: process_existing_apps_def)
  moreover have "\<forall>a\<in>set (apps cfg).
      is_dropped (dispose inst a) \<and> artwork a \<noteq> [] \<and> artwork a \<notin> locked env \<and>
      files w (artwork a) \<noteq> Some Directory \<longrightarrow>
      files (disk (process_existing_apps env cfg inst w)) (artwork a) = None"
    using process_loop_deletes[of _ "apps cfg" inst env ?r0]
    by (simp add: process_existing_apps_def)
  ultimately show ?thesis
    using process_loop_lists[of env inst "apps cfg" ?r0]
    by (simp add: process_existing_apps_def)
qed

lemma extract_examples:
  "extract_steam_app_id ''foo.sh'' = None"
  "extract_steam_app_id ''steam://rungameid/200'' = Some ''200''"
  by (simp_all add: extract_steam_app_id_def match_here_def rungame_marker_def lower_ascii_def
      is_digit_def)

lemma dispose_examples:
  "dispose [(''100'', ''Game100''), (''200'', ''Game200'')] entry_art = Dropped (PyStr ''Unknown'') ''10''"
  "dispose [(''100'', ''Game100''), (''200'', ''Game200'')] entry_opaque = Kept"
  "dispose [(''100'', ''Game100''), (''200'', ''Game200'')] entry_200 = Matched ''200''"
  by (simp_all add: dispose_def steam_id_of_def entry_art_def entry_opaque_def entry_200_def
      dict_get_def dict_get_default_def extract_examples extract_ten)

lemma artwork_entry_art: "artwork entry_art = ''x.png''"
  by (simp add: artwork_def entry_art_def dict_get_def)

text \<open>The theorem on three entries: one dropped with its artwork, one opaque, one matched.\<close>

theorem process_existing_apps_dispositions_witness:
  "updated_apps (process_existing_apps env_example
       \<lparr>apps = [entry_art, entry_opaque, entry_200], other_keys = []\<rparr>
       [(''100'', ''Game100''), (''200'', ''Game200'')] world_example) = [entry_opaque, entry_200] \<and>
   removed_games (process_existing_apps env_example
       \<lparr>apps = [entry_art, entry_opaque, entry_200], other_keys = []\<rparr>
       [(''100'', ''Game100''), (''200'', ''Game200'')] world_example) = [(PyStr ''Unknown'', ''10'')] \<and>
   existing_steam_apps (process_existing_apps env_example
       \<lparr>apps = [entry_art, entry_opaque, entry_200], other_keys = []\<rparr>
       [(''100'', ''Game100''), (''200'', ''Game200'')] world_example) = {''200''} \<and>
   files (disk (process_existing_apps env_example
       \<lparr>apps = [entry_art, entry_opaque, entry_200], other_keys = []\<rparr>
       [(''100'', ''Game100''), (''200'', ''Game200'')] world_example)) ''x.png'' = None"
  using process_existing_apps_dispositions[of env_example
      "\<lparr>apps = [entry_art, entry_opaque, entry_200], other_keys = []\<rparr>"
      "[(''100'', ''Game100''), (''200'', ''Game200'')]" world_example]
  by (simp add: dispose_examples artwork_entry_art env_example_def world_example_def)


lemma process_loop_nothing_dropped:
  "\<forall>a\<in>set as. \<not> is_dropped (dispose inst a) \<Longrightarrow>
   disk (process_loop env inst as r) = disk r"
proof (induction as arbitrary: r)
  case Nil
  show ?case by simp
next
  case (Cons a as)
  then have "disk (reconcile_step env inst a r) = disk r"
    by (cases "dispose inst a") (simp_all add: reconcile_step_def)
  with Cons show ?case unfolding process_loop_Cons by simp
qed

lemma concat_dropped_none:
  "\<forall>a\<in>set as. \<not> is_dropped (dispose inst a) \<Longrightarrow>
   concat (map (\<lambda>a. dropped_pair (dispose inst a)) as) = []"
proof (induction as)
  case Nil
  show ?case by simp
next
  case (Cons a as)
  then show ?case by (cases "dispose inst a") simp_all
qed

text \<open>
  C6. Reconciliation is idempotent: run again on the kept list of a first run, with the
  same installed games, it removes no game, keeps the list unchanged and leaves the disk
  as it finds it.
\<close>

theorem reconcile_idempotent:
  "removed_games (process_existing_apps env2
      (cfg\<lparr>apps := updated_apps (process_existing_apps env cfg inst w)\<rparr>) inst w2) = [] \<and>
   updated_apps (process_existing_apps env2
      (cfg\<lparr>apps := updated_apps (process_existing_apps env cfg inst w)\<rparr>) inst w2) =
     updated_apps (process_existing_apps env cfg inst w) \<and>
   disk (process_existing_apps env2
      (cfg\<lparr>apps := updated_apps (process_existing_apps env cfg inst w)\<rparr>) inst w2) = w2"
proof -
  let ?k = "updated_apps (process_existing_apps env cfg inst w)"
  have k: "?k = filter (\<lambda>a. \<not> is_dropped (dispose inst a)) (apps cfg)"
    using process_existing_apps_helper[of env cfg inst w] by simp
  then have none: "\<forall>a\<in>set ?k. \<not> is_dropped (dispose inst a)" by simp
  have "filter (\<lambda>a. \<not> is_dropped (dispose inst a)) ?k = ?k"
    using none by (simp add: filter_id_conv)
  moreover have "disk (process_existing_apps env2 (cfg\<lparr>apps := ?k\<rparr>) inst w2) = w2"
    using process_loop_nothing_dropped[OF none] by (simp add: process_existing_apps_def)
  ultimately show ?thesis
    using process_existing_apps_helper[of env2 "cfg\<lparr>apps := ?k\<rparr>" inst w2]
      concat_dropped_none[OF none]
    by simp
qed

section \<open>Orchestrator: properties\<close>

lemma extract_100: "extract_steam_app_id ''steam://rungameid/100'' = Some ''100''"
  by (simp add: extract_steam_app_id_def match_here_def rungame_marker_def lower_ascii_def
      is_digit_def)

lemma steam_id_more:
  "steam_id_of entry_100 = Some ''100''"
  "steam_id_of entry_200 = Some ''200''"
  "steam_id_of entry_opaque = None"
  by (simp_all add: steam_id_of_def entry_100_def entry_200_def entry_opaque_def dict_get_def
      extract_examples extract_100)

lemma dedupe_examples:
  "dedupe_sunshine_apps [entry_100, entry_200] = Inr ([entry_100, entry_200], [])"
  "dedupe_sunshine_apps [entry_art] = Inr ([entry_art], [])"
  by (rule dedupe_of_distinct, simp add: akey_def steam_id_more steam_id_examples)+

lemma main_diff_cases:
  assumes "main_diff a env w = Inr d"
  obtains cfg sc k w2 where
    "validated env = Inr cfg" "library env = Inr (installed d)"
    "get_sunshine_config (if \<not> no_restart a then restart_steam env (steam_exe_path cfg) w else w)
       (sunshine_apps_json_path cfg) = Inr sc"
    "dedupe_sunshine_apps (apps sc) = Inr (k, removed_dupes d)"
    "makedirs env (sunshine_grids_folder cfg)
       (if \<not> no_restart a then restart_steam env (steam_exe_path cfg) w else w) = (None, w2)"
    "run_config d = cfg" "loaded d = sc\<lparr>apps := k\<rparr>"
    "reconcile d = process_existing_apps env (sc\<lparr>apps := k\<rparr>) (installed d) w2"
    "new_games d = new_games_of (installed d) (existing_steam_apps (reconcile d))"
  using assms
  by (auto simp: main_diff_def Let_def split: sum.splits prod.splits option.splits)


lemma matched_id_dispose:
  "i \<in> matched_id (dispose inst a) \<longleftrightarrow> steam_id_of a = Some i \<and> i \<in> set (map fst inst)"
  by (cases "steam_id_of a") (auto simp: dispose_def)

lemma tracked_not_matched:
  "set (map fst inst) - \<Union> (set (map (\<lambda>a. matched_id (dispose inst a)) as)) =
   set (map fst inst) - {i. \<exists>x\<in>set as. steam_id_of x = Some i}"
proof (rule set_eqI)
  fix i
  have "i \<in> \<Union> (set (map (\<lambda>a. matched_id (dispose inst a)) as)) \<longleftrightarrow>
        (\<exists>x\<in>set as. steam_id_of x = Some i) \<and> i \<in> set (map fst inst)"
    by (auto simp: matched_id_dispose)
  then show "i \<in> set (map fst inst) - \<Union> (set (map (\<lambda>a. matched_id (dispose inst a)) as)) \<longleftrightarrow>
        i \<in> set (map fst inst) - {i. \<exists>x\<in>set as. steam_id_of x = Some i}"
    by blast
qed

lemma new_games_of_reconciled:
  "new_games_of inst (existing_steam_apps (process_existing_apps env cfg inst w)) =
     set (map fst inst) - {i. \<exists>x\<in>set (apps cfg). steam_id_of x = Some i}"
  using process_existing_apps_helper[of env cfg inst w] tracked_not_matched[of inst "apps cfg"]
  by (simp add: new_games_of_def)

text \<open>
  C3. In every run that reaches the diff, the add-set is the set of keys of the installed
  games minus the matched set returned by reconciliation, which is the set of installed
  identifiers that no entry of the (deduplicated) list carries.
\<close>

theorem add_set_is_difference:
  assumes "main_diff a env w = Inr d"
  shows "library env = Inr (installed d) \<and>
         new_games d = set (map fst (installed d)) - existing_steam_apps (reconcile d) \<and>
         new_games d =
           set (map fst (installed d)) - {i. \<exists>x\<in>set (apps (loaded d)). steam_id_of x = Some i}"
proof -
  from assms obtain cfg sc k w2 where
    lib: "library env = Inr (installed d)" and ld: "loaded d = sc\<lparr>apps := k\<rparr>" and
    rec: "reconcile d = process_existing_apps env (sc\<lparr>apps := k\<rparr>) (installed d) w2" and
    ng: "new_games d = new_games_of (installed d) (existing_steam_apps (reconcile d))"
    by (rule main_diff_cases)
  have "new_games d =
          set (map fst (installed d)) - {i. \<exists>x\<in>set (apps (loaded d)). steam_id_of x = Some i}"
    using new_games_of_reconciled[of "installed d" env "sc\<lparr>apps := k\<rparr>" w2] ng rec ld
    by simp
  with lib ng show ?thesis by (simp add: new_games_of_def)
qed

lemma load_two_tracked:
  "get_sunshine_config world_two_tracked ''apps.json'' =
     Inr \<lparr>apps = [entry_100, entry_200], other_keys = [(''env'', PyStr [])]\<rparr>"
  by (simp add: get_sunshine_config_def world_two_tracked_def)

lemma env_example_fields:
  "validated env_example = Inr config_example"
  "library env_example = Inr [(''100'', ''Game100''), (''200'', ''Game200'')]"
  "os_nt env_example = False" "locked env_example = {}"
  "path_heads env_example path = []" "dirname env_example path = []"
  by (simp_all add: env_example_def)

lemma makedirs_two_tracked:
  "makedirs env_example ''grids'' world_two_tracked =
     (None, world_two_tracked\<lparr>files := (files world_two_tracked)(''grids'' \<mapsto> Directory)\<rparr>)"
  by (simp add: makedirs_def mkdir_exist_ok_def world_two_tracked_def env_example_fields)

lemma config_example_fields:
  "sunshine_apps_json_path config_example = ''apps.json''"
  "sunshine_grids_folder config_example = ''grids''"
  "steam_exe_path config_example = []" "sunshine_exe_path config_example = []"
  by (simp_all add: config_example_def)

lemma main_diff_two_tracked:
  "main_diff args_plain env_example world_two_tracked =
     Inr \<lparr>run_config = config_example,
          loaded = \<lparr>apps = [entry_100, entry_200], other_keys = [(''env'', PyStr [])]\<rparr>,
          installed = [(''100'', ''Game100''), (''200'', ''Game200'')],
          removed_dupes = [],
          reconcile = process_existing_apps env_example
             \<lparr>apps = [entry_100, entry_200], other_keys = [(''env'', PyStr [])]\<rparr>
             [(''100'', ''Game100''), (''200'', ''Game200'')]
             (world_two_tracked\<lparr>files := (files world_two_tracked)(''grids'' \<mapsto> Directory)\<rparr>),
          new_games = new_games_of [(''100'', ''Game100''), (''200'', ''Game200'')]
             (existing_steam_apps (process_existing_apps env_example
             \<lparr>apps = [entry_100, entry_200], other_keys = [(''env'', PyStr [])]\<rparr>
             [(''100'', ''Game100''), (''200'', ''Game200'')]
             (world_two_tracked\<lparr>files := (files world_two_tracked)(''grids'' \<mapsto> Directory)\<rparr>)))\<rparr>"
  by (simp add: main_diff_def env_example_fields config_example_fields args_plain_def
      restart_steam_def load_two_tracked makedirs_two_tracked dedupe_examples Let_def)


lemma env_three_fields:
  "validated env_three_installed = Inr config_example"
  "library env_three_installed =
     Inr [(''100'', ''Game100''), (''200'', ''Game200''), (''300'', ''Game300'')]"
  "os_nt env_three_installed = False" "locked env_three_installed = {}"
  "path_heads env_three_installed path = []"
  by (simp_all add: env_three_installed_def env_example_def)

lemma makedirs_three:
  "makedirs env_three_installed ''grids'' world_two_tracked =
     (None, world_two_tracked\<lparr>files := (files world_two_tracked)(''grids'' \<mapsto> Directory)\<rparr>)"
  by (simp add: makedirs_def mkdir_exist_ok_def world_two_tracked_def env_three_fields)

lemma main_diff_three_installed:
  "\<exists>d. main_diff args_plain env_three_installed world_two_tracked = Inr d \<and>
       installed d = [(''100'', ''Game100''), (''200'', ''Game200''), (''300'', ''Game300'')] \<and>
       apps (loaded d) = [entry_100, entry_200]"
  by (simp add: main_diff_def env_three_fields config_example_fields args_plain_def
      restart_steam_def load_two_tracked makedirs_three dedupe_examples Let_def)

text \<open>
  The theorem on a run with three installed games and tracked entries for two of them:
  the add-set is the third.
\<close>

theorem add_set_is_difference_witness:
  "\<exists>d. main_diff args_plain env_three_installed world_two_tracked = Inr d \<and>
       new_games d = {''300''}"
proof -
  from main_diff_three_installed obtain d where d:
    "main_diff args_plain env_three_installed world_two_tracked = Inr d"
    "installed d = [(''100'', ''Game100''), (''200'', ''Game200''), (''300'', ''Game300'')]"
    "apps (loaded d) = [entry_100, entry_200]" by blast
  from add_set_is_difference[OF d(1)] have "new_games d = {''300''}"
    by (auto simp: d(2,3) steam_id_more)
  with d(1) show ?thesis by blast
qed

lemma restart_steam_frame:
  "files (restart_steam env p w) = files w \<and>
   (events (restart_steam env p w) = events w \<or>
    events (restart_steam env p w) = events w @ [RestartSteam])"
  by (simp add: restart_steam_def)

lemma mkdir_exist_ok_frame:
  assumes "mkdir_exist_ok env name heads w = (e, w')"
  shows "events w' = events w \<and>
         (\<forall>p. files w' p = files w p \<or>
              (files w p = None \<and> files w' p = Some Directory \<and> p = name))"
  using assms
  by (auto simp: mkdir_exist_ok_def split: option.splits content.splits if_splits)

lemma makedirs_from_frame:
  "makedirs_from env name heads w = (e, w') \<Longrightarrow>
   events w' = events w \<and>
   (\<forall>p. files w' p = files w p \<or>
        (files w p = None \<and> files w' p = Some Directory \<and> p \<in> set (name # heads)))"
proof (induction heads arbitrary: name w e w')
  case Nil
  then show ?case using mkdir_exist_ok_frame[of env name "[]" w e w'] by auto
next
  case (Cons head rest)
  show ?case
  proof (cases "files w head = None")
    case False
    with Cons.prems have "mkdir_exist_ok env name (head # rest) w = (e, w')"
      by (simp split: if_splits)
    from mkdir_exist_ok_frame[OF this] show ?thesis by auto
  next
    case True
    obtain e1 w1 where r: "makedirs_from env head rest w = (e1, w1)"
      by (cases "makedirs_from env head rest w")
    from Cons.IH[OF r] have f1: "events w1 = events w"
      "\<forall>p. files w1 p = files w p \<or>
           (files w p = None \<and> files w1 p = Some Directory \<and> p \<in> set (head # rest))"
      by simp_all
    show ?thesis
    proof (cases e1)
      case (Some err)
      then have "w' = w1" using Cons.prems True r by simp
      with f1 show ?thesis by auto
    next
      case None
      then have "mkdir_exist_ok env name (head # rest) w1 = (e, w')"
        using Cons.prems True r by simp
      from mkdir_exist_ok_frame[OF this] have f2: "events w' = events w1"
        "\<forall>p. files w' p = files w1 p \<or>
             (files w1 p = None \<and> files w' p = Some Directory \<and> p = name)"
        by simp_all
      show ?thesis
      proof (intro conjI allI)
        show "events w' = events w" using f1(1) f2(1) by simp
        fix p
        from f1(2) f2(2) have
          "files w1 p = files w p \<or>
             (files w p = None \<and> files w1 p = Some Directory \<and> p \<in> set (head # rest))"
          "files w' p = files w1 p \<or>
             (files w1 p = None \<and> files w' p = Some Directory \<and> p = name)"
          by blast+
        then show "files w' p = files w p \<or>
             (files w p = None \<and> files w' p = Some Directory \<and> p \<in> set (name # head # rest))"
          by auto
      qed
    qed
  qed
qed

lemma makedirs_frame:
  assumes "makedirs env g w1 = (e, w2)"
  shows "events w2 = events w1 \<and>
         (\<forall>p. files w2 p = files w1 p \<or>
              (files w1 p = None \<and> files w2 p = Some Directory \<and>
               p \<in> set (g # path_heads env g)))"
  using makedirs_from_frame[of env g "path_heads env g" w1 e w2] assms
  by (simp add: makedirs_def)

text \<open>
  Saving to a bare file name: the existing file is copied to its backup, then
  \<open>os.makedirs\<close> of the empty directory name raises, and the configuration is not written.
\<close>

lemma save_bare_file_name_fails:
  "save_sunshine_config env_example ''apps.json'' c world_two_tracked =
     (Some FolderError,
      world_two_tracked\<lparr>files := (files world_two_tracked)
         (''apps.json.backup'' \<mapsto> ConfigFile \<lparr>apps = [entry_100, entry_200],
                                                 other_keys = [(''env'', PyStr [])]\<rparr>)\<rparr>)"
  by (simp add: save_sunshine_config_def makedirs_def mkdir_exist_ok_def env_example_fields
      world_two_tracked_def Let_def)

lemma nothing_dropped:
  "concat (map (\<lambda>a. dropped_pair (dispose inst a)) as) = [] \<Longrightarrow>
   \<forall>a\<in>set as. \<not> is_dropped (dispose inst a)"
proof (induction as)
  case Nil
  show ?case by simp
next
  case (Cons a as)
  then show ?case by (cases "dispose inst a") simp_all
qed

lemma reconcile_nothing_removed:
  assumes "removed_games (process_existing_apps env cfg inst w) = []"
  shows "disk (process_existing_apps env cfg inst w) = w"
proof -
  have "concat (map (\<lambda>a. dropped_pair (dispose inst a)) (apps cfg)) = []"
    using assms process_existing_apps_helper[of env cfg inst w] by simp
  from process_loop_nothing_dropped[OF nothing_dropped[OF this]]
  show ?thesis by (simp add: process_existing_apps_def)
qed

text \<open>
  C7. When the first deduplication removes nothing, reconciliation removes no game and
  the add-set is empty, \<open>main\<close> stops with exit code 0 before the add phase. Nothing is
  saved and Sunshine is not restarted: the only event the run can add is the restart of
  Steam at its start. On disk every path is as before, except that the grids folder and
  its ancestors, where they were missing, are now directories. So no file that exists is
  changed, and the configuration file is not written.
\<close>

theorem main_up_to_date:
  assumes "main_diff a env w = Inr d"
    and "removed_dupes d = []" and "removed_games (reconcile d) = []" and "new_games d = {}"
  shows "\<exists>w'. main a env w = (0, w') \<and>
           (events w' = events w \<or> events w' = events w @ [RestartSteam]) \<and>
           (\<forall>p. files w' p = files w p \<or>
                (files w p = None \<and> files w' p = Some Directory \<and>
                 p \<in> set (sunshine_grids_folder (run_config d) #
                          path_heads env (sunshine_grids_folder (run_config d)))))"
proof -
  from assms(1) obtain cfg sc k w2 where
    mk: "makedirs env (sunshine_grids_folder cfg)
       (if \<not> no_restart a then restart_steam env (steam_exe_path cfg) w else w) = (None, w2)" and
    rc: "run_config d = cfg" and
    rec: "reconcile d = process_existing_apps env (sc\<lparr>apps := k\<rparr>) (installed d) w2"
    by (rule main_diff_cases)
  define w1 where "w1 = (if \<not> no_restart a then restart_steam env (steam_exe_path cfg) w else w)"
  have w1: "files w1 = files w" "events w1 = events w \<or> events w1 = events w @ [RestartSteam]"
    using restart_steam_frame[of env "steam_exe_path cfg" w] by (auto simp: w1_def)
  have disk: "disk (reconcile d) = w2"
    using assms(3) reconcile_nothing_removed[of env "sc\<lparr>apps := k\<rparr>" "installed d" w2] rec
    by simp
  have run: "main a env w = (0, w2)"
    using assms disk by (simp add: main_def changes_needed_def)
  from mk have "makedirs env (sunshine_grids_folder cfg) w1 = (None, w2)" by (simp only: w1_def)
  from makedirs_frame[OF this] have
    "events w2 = events w1"
    "\<forall>p. files w2 p = files w1 p \<or>
         (files w1 p = None \<and> files w2 p = Some Directory \<and>
          p \<in> set (sunshine_grids_folder cfg # path_heads env (sunshine_grids_folder cfg)))"
    by blast+
  with w1 have
    "events w2 = events w \<or> events w2 = events w @ [RestartSteam]"
    "\<forall>p. files w2 p = files w p \<or>
         (files w p = None \<and> files w2 p = Some Directory \<and>
          p \<in> set (sunshine_grids_folder (run_config d) #
                   path_heads env (sunshine_grids_folder (run_config d))))"
    using rc by simp_all
  with run show ?thesis by blast
qed

lemma dispose_entry_100:
  "dispose [(''100'', ''Game100''), (''200'', ''Game200'')] entry_100 = Matched ''100''"
  by (simp add: dispose_def steam_id_more)

text \<open>The theorem on a run whose two installed games both have their entry.\<close>

theorem main_up_to_date_witness:
  "\<exists>d. main_diff args_plain env_example world_two_tracked = Inr d \<and>
       removed_dupes d = [] \<and> removed_games (reconcile d) = [] \<and> new_games d = {} \<and>
       (\<exists>w'. main args_plain env_example world_two_tracked = (0, w') \<and>
             (events w' = [] \<or> events w' = [RestartSteam]) \<and>
             files w' ''apps.json'' = files world_two_tracked ''apps.json'')"
proof -
  let ?cfg = "\<lparr>apps = [entry_100, entry_200], other_keys = [(''env'', PyStr [])]\<rparr>"
  let ?inst = "[(''100'', ''Game100''), (''200'', ''Game200'')]"
  let ?w2 = "world_two_tracked\<lparr>files := (files world_two_tracked)(''grids'' \<mapsto> Directory)\<rparr>"
  let ?d = "\<lparr>run_config = config_example, loaded = ?cfg, installed = ?inst, removed_dupes = [],
            reconcile = process_existing_apps env_example ?cfg ?inst ?w2,
            new_games = new_games_of ?inst
              (existing_steam_apps (process_existing_apps env_example ?cfg ?inst ?w2))\<rparr>"
  have d: "main_diff args_plain env_example world_two_tracked = Inr ?d"
    by (rule main_diff_two_tracked)
  have h2: "removed_dupes ?d = []" by simp
  have h3: "removed_games (reconcile ?d) = []"
    using process_existing_apps_helper[of env_example ?cfg ?inst ?w2]
    by (simp add: dispose_entry_100 dispose_examples)
  have h4: "new_games ?d = {}"
    using new_games_of_reconciled[of ?inst env_example ?cfg ?w2]
    by (auto simp: steam_id_more)
  have "\<exists>w'. main args_plain env_example world_two_tracked = (0, w') \<and>
           (events w' = events world_two_tracked \<or>
            events w' = events world_two_tracked @ [RestartSteam]) \<and>
           (\<forall>p. files w' p = files world_two_tracked p \<or>
                (files world_two_tracked p = None \<and> files w' p = Some Directory \<and>
                 p \<in> set (sunshine_grids_folder (run_config ?d) #
                          path_heads env_example (sunshine_grids_folder (run_config ?d)))))"
    by (rule main_up_to_date[OF d h2 h3 h4])
  then obtain w' where m:
    "main args_plain env_example world_two_tracked = (0, w') \<and>
           (events w' = events world_two_tracked \<or>
            events w' = events world_two_tracked @ [RestartSteam]) \<and>
           (\<forall>p. files w' p = files world_two_tracked p \<or>
                (files world_two_tracked p = None \<and> files w' p = Some Directory \<and>
                 p \<in> set (sunshine_grids_folder (run_config ?d) #
                          path_heads env_example (sunshine_grids_folder (run_config ?d)))))" ..
  have ev: "events world_two_tracked = []" by (simp add: world_two_tracked_def)
  have cfgfile: "files world_two_tracked ''apps.json'' \<noteq> None"
    by (simp add: world_two_tracked_def)
  from m have m1: "main args_plain env_example world_two_tracked = (0, w')" by (rule conjunct1)
  from m have m2: "events w' = events world_two_tracked \<or>
            events w' = events world_two_tracked @ [RestartSteam]"
    by (rule conjunct2[THEN conjunct1])
  from m have "files w' ''apps.json'' = files world_two_tracked ''apps.json'' \<or>
                (files world_two_tracked ''apps.json'' = None \<and> files w' ''apps.json'' = Some Directory \<and>
                 ''apps.json'' \<in> set (sunshine_grids_folder (run_config ?d) #
                          path_heads env_example (sunshine_grids_folder (run_config ?d))))"
    by (rule conjunct2[THEN conjunct2, THEN spec])
  with cfgfile have m3: "files w' ''apps.json'' = files world_two_tracked ''apps.json''"
    by (elim disjE conjE) simp_all
  from m2 ev have m2': "events w' = [] \<or> events w' = [RestartSteam]" by simp
  have "\<exists>w'. main args_plain env_example world_two_tracked = (0, w') \<and>
             (events w' = [] \<or> events w' = [RestartSteam]) \<and>
             files w' ''apps.json'' = files world_two_tracked ''apps.json''"
    by (rule exI[of _ w'], intro conjI m1 m2' m3)
  with d h2 h3 h4 show ?thesis by (intro exI[of _ ?d] conjI)
qed


lemma load_stale:
  "get_sunshine_config world_stale ''apps.json'' =
     Inr \<lparr>apps = [entry_art], other_keys = [(''env'', PyStr [])]\<rparr>"
  by (simp add: get_sunshine_config_def world_stale_def)

lemma makedirs_stale:
  "makedirs env_example ''grids'' world_stale =
     (None, world_stale\<lparr>files := (files world_stale)(''grids'' \<mapsto> Directory)\<rparr>)"
  by (simp add: makedirs_def mkdir_exist_ok_def world_stale_def env_example_fields)

lemma artwork_value_entry_art: "dict_get entry_art ''image-path'' = PyStr ''x.png''"
  by (simp add: entry_art_def dict_get_def)

lemma reconcile_stale:
  "process_existing_apps env_example
     \<lparr>apps = [entry_art], other_keys = [(''env'', PyStr [])]\<rparr>
     [(''100'', ''Game100''), (''200'', ''Game200'')]
     (world_stale\<lparr>files := (files world_stale)(''grids'' \<mapsto> Directory)\<rparr>) =
   \<lparr>updated_apps = [], removed_games = [(PyStr ''Unknown'', ''10'')], existing_steam_apps = {},
    disk = world_stale\<lparr>files := (files world_stale)(''grids'' \<mapsto> Directory, ''x.png'' := None)\<rparr>\<rparr>"
proof -
  let ?inst = "[(''100'', ''Game100''), (''200'', ''Game200'')]"
  let ?w2 = "world_stale\<lparr>files := (files world_stale)(''grids'' \<mapsto> Directory)\<rparr>"
  let ?r0 = "\<lparr>updated_apps = [], removed_games = [], existing_steam_apps = {}, disk = ?w2\<rparr>"
  have rm: "remove_grid env_example (PyStr ''x.png'') ?w2 =
              world_stale\<lparr>files := (files world_stale)(''grids'' \<mapsto> Directory, ''x.png'' := None)\<rparr>"
    by (simp add: remove_grid_def env_example_fields world_stale_def)
  have "process_existing_apps env_example
          \<lparr>apps = [entry_art], other_keys = [(''env'', PyStr [])]\<rparr> ?inst ?w2 =
        process_loop env_example ?inst [] (reconcile_step env_example ?inst entry_art ?r0)"
    by (simp only: process_existing_apps_def process_loop_Cons sunshine_config.simps)
  also have "\<dots> = reconcile_step env_example ?inst entry_art ?r0" by simp
  also have "\<dots> = \<lparr>updated_apps = [], removed_games = [(PyStr ''Unknown'', ''10'')],
      existing_steam_apps = {},
      disk = world_stale\<lparr>files := (files world_stale)(''grids'' \<mapsto> Directory, ''x.png'' := None)\<rparr>\<rparr>"
    by (simp add: reconcile_step_def dispose_examples artwork_value_entry_art rm)
  finally show ?thesis .
qed

text \<open>
  C8 fails on the code. \<open>process_existing_apps\<close> and \<open>os.makedirs\<close> run before the
  test of \<open>args.dry_run\<close>. In a dry run over a configuration with an entry for a game
  that is no longer installed, the entry's artwork file is deleted and the grids folder
  is created, although the option is documented as making no changes.
\<close>

theorem dry_run_removes_artwork:
  "dry_run args_dry_run \<and>
   files world_stale ''x.png'' = Some OtherFile \<and> files world_stale ''grids'' = None \<and>
   fst (main args_dry_run env_example world_stale) = 0 \<and>
   files (snd (main args_dry_run env_example world_stale)) ''x.png'' = None \<and>
   files (snd (main args_dry_run env_example world_stale)) ''grids'' = Some Directory"
proof -
  have "main_diff args_dry_run env_example world_stale =
     Inr \<lparr>run_config = config_example,
          loaded = \<lparr>apps = [entry_art], other_keys = [(''env'', PyStr [])]\<rparr>,
          installed = [(''100'', ''Game100''), (''200'', ''Game200'')],
          removed_dupes = [],
          reconcile = \<lparr>updated_apps = [], removed_games = [(PyStr ''Unknown'', ''10'')],
             existing_steam_apps = {},
             disk = world_stale\<lparr>files := (files world_stale)(''grids'' \<mapsto> Directory,
                                                               ''x.png'' := None)\<rparr>\<rparr>,
          new_games = {''100'', ''200''}\<rparr>"
    by (auto simp: main_diff_def env_example_fields config_example_fields args_dry_run_def
        load_stale makedirs_stale dedupe_examples reconcile_stale new_games_of_def Let_def)
  then show ?thesis
    by (simp add: main_def changes_needed_def args_dry_run_def world_stale_def)
qed

end
